theory Spec2Isabelle
  imports Main "HOL-Library.Word"
begin

unbundle bit_operations_syntax

section \<open>C strings\<close>

text \<open>
  A C string is modelled by the list of its characters before the terminating NUL; the
  strings of the model hold no NUL themselves.  A pointer into a string is the suffix it
  points at, or an offset from the start of that suffix.
\<close>

definition NUL :: char where
  "NUL = CHR 0x00"

text \<open>\<open>p[i]\<close> for a pointer \<open>p\<close> to a C string: the terminator is read at its end.\<close>

definition char_at :: "string \<Rightarrow> nat \<Rightarrow> char" where
  "char_at s i = (if i < length s then s ! i else NUL)"

text \<open>\<open>strchr (s, c)\<close> for \<open>c\<close> other than NUL: the offset of the first \<open>c\<close>, or NULL.\<close>

fun strchr :: "string \<Rightarrow> char \<Rightarrow> nat option" where
  "strchr [] c = None"
| "strchr (x # xs) c = (if x = c then Some 0 else map_option Suc (strchr xs c))"

text \<open>\<open>strstr (haystack, needle) != NULL\<close>.\<close>

fun strstr :: "string \<Rightarrow> string \<Rightarrow> bool" where
  "strstr [] needle = (needle = [])"
| "strstr (h # hs) needle = (take (length needle) (h # hs) = needle \<or> strstr hs needle)"

text \<open>The conversion of a pointer difference to \<open>size_t\<close> (64 bits): it wraps.\<close>

definition size_t_of :: "int \<Rightarrow> nat" where
  "size_t_of i = nat (i mod 2 ^ 64)"

text \<open>\<open>strndup (s, n)\<close>: at most \<open>n\<close> characters of \<open>s\<close>.\<close>

definition strndup :: "string \<Rightarrow> nat \<Rightarrow> string" where
  "strndup s n = take n s"

section \<open>Building the command line\<close>

text \<open>
  \<open>g->app.cmdline\<close> is the list of the arguments added so far; \<open>add_cmdline\<close>
  appends one.
\<close>

definition add_cmdline :: "string list \<Rightarrow> string \<Rightarrow> string list" where
  "add_cmdline cmdline str = cmdline @ [str]"

text \<open>
  The two ways \<open>add_cmdline_shell_unquoted\<close> leaves the child process with
  \<open>_exit (EXIT_FAILURE)\<close>: the quote character and the text near it, as printed.
\<close>

datatype shell_error =
  Unclosed_quote char string
| Cannot_parse_quoted string

text \<open>
  One turn of the loop of \<open>add_cmdline_shell_unquoted\<close>, for \<open>options\<close> not empty:
  the argument it adds and the \<open>nextp\<close> the loop goes on from.  \<open>startp\<close>, \<open>endp\<close>
  and \<open>nextp\<close> are offsets from \<open>options\<close>.  As in the source, \<open>strchr\<close> searches
  from \<open>options\<close>, and the length given to \<open>safe_strndup\<close> is \<open>endp - startp\<close>
  converted to \<open>size_t\<close>.
\<close>

definition shell_token :: "string \<Rightarrow> shell_error + (string \<times> string)" where
  "shell_token options =
    (let c = char_at options 0;
         quoted = (c = CHR 0x27 \<or> c = CHR 0x22);
         quote = (if quoted then c else CHR '' '');
         startp = (if quoted then 1 else 0 :: nat)
     in
       case (case strchr options quote of
               Some e \<Rightarrow> Inr e
             | None \<Rightarrow>
                 if quote \<noteq> CHR '' '' then Inl (Unclosed_quote quote options)
                 else Inr (length options)) of
         Inl err \<Rightarrow> Inl err
       | Inr endp \<Rightarrow>
           (case (if quote = CHR '' '' then
                    (if char_at options endp = NUL then Inr endp else Inr (endp + 1))
                  else if char_at options (endp + 1) = NUL then Inr (endp + 1)
                  else if char_at options (endp + 1) = CHR '' '' then Inr (endp + 2)
                  else Inl (Cannot_parse_quoted options)) of
              Inl err \<Rightarrow> Inl err
            | Inr nextp \<Rightarrow>
                Inr (strndup (drop startp options) (size_t_of (int endp - int startp)),
                     dropWhile (\<lambda>x. x = CHR '' '') (drop nextp options))))"

lemma strchr_bound: "strchr s c = Some e \<Longrightarrow> e < length s \<and> s ! e = c"
  by (induction s arbitrary: e) (auto split: if_splits)

lemma shell_token_shorter:
  assumes "shell_token options = Inr (tok, rest)" and "options \<noteq> []"
  shows "length rest < length options"
proof -
  have dw: "length (dropWhile P (drop n options)) < length options" if "0 < n" for P n
  proof -
    have "length (dropWhile P (drop n options)) \<le> length (drop n options)"
      by (rule length_dropWhile_le)
    also have "\<dots> < length options"
      using that assms(2) by simp
    finally show ?thesis .
  qed
  from assms(1) show ?thesis
    using assms(2)
    by (auto simp: shell_token_def Let_def char_at_def NUL_def dw
        split: option.splits if_splits sum.splits dest: strchr_bound)
qed

function add_cmdline_shell_unquoted ::
  "string list \<Rightarrow> string \<Rightarrow> shell_error + string list" where
  "add_cmdline_shell_unquoted cmdline options =
    (if options = [] then Inr cmdline
     else case shell_token options of
            Inl err \<Rightarrow> Inl err
          | Inr (tok, nextp) \<Rightarrow> add_cmdline_shell_unquoted (cmdline @ [tok]) nextp)"
  by pat_completeness auto
termination
  by (relation "measure (\<lambda>(cmdline, options). length options)")
     (auto dest: shell_token_shorter)


section \<open>Drives and the handle\<close>

text \<open>
  \<open>struct drive\<close>, with the fields this file reads.  A pointer that may be NULL is an
  option.
\<close>

record drive =
  path :: string
  iface :: "string option"
  format :: "string option"
  disk_label :: "string option"
  readonly :: bool
  use_cache_none :: bool

datatype state = CONFIG | LAUNCHING | READY | NO_HANDLE

text \<open>
  The handle \<open>guestfs_h\<close>, with the fields the parent process reads or writes here;
  \<open>app_x\<close> is \<open>g->app.x\<close>, \<open>fd0\<close> and \<open>fd1\<close> are \<open>g->fd[0]\<close> and \<open>g->fd[1]\<close>,
  \<open>launch_t\<close> is the \<open>struct timeval\<close> as seconds and microseconds, and \<open>nr_drives\<close>
  is the length of \<open>drives\<close>.  File descriptors and process ids are C ints.
\<close>

record handle =
  state :: state
  qemu :: string
  drives :: "drive list"
  direct :: bool
  recovery_proc :: bool
  sock :: int
  fd0 :: int
  fd1 :: int
  launch_t :: "int \<times> int"
  app_pid :: int
  app_recoverypid :: int
  app_qemu_help :: "string option"
  app_qemu_version :: "string option"
  app_qemu_devices :: "string option"
  app_qemu_version_major :: int
  app_qemu_version_minor :: int
  app_virtio_scsi :: int

section \<open>The peer of a TCP socket\<close>

text \<open>
  \<open>struct sockaddr_in\<close>: the family, and the port and address as the socket calls
  return them, in network byte order.
\<close>

record sockaddr_in =
  sin_family :: "16 word"
  sin_port :: "16 word"
  sin_addr :: "32 word"

definition AF_INET :: "16 word" where
  "AF_INET = 2"

definition INADDR_LOOPBACK :: "32 word" where
  "INADDR_LOOPBACK = 0x7F000001"

text \<open>\<open>ntohs\<close> and \<open>ntohl\<close> on a little-endian host: the bytes are swapped.\<close>

definition ntohs :: "16 word \<Rightarrow> 16 word" where
  "ntohs x = push_bit 8 x OR drop_bit 8 x"

definition ntohl :: "32 word \<Rightarrow> 32 word" where
  "ntohl x =
     push_bit 24 x OR push_bit 8 (x AND 0xFF00) OR
     (drop_bit 8 x AND 0xFF00) OR drop_bit 24 x"

text \<open>
  What \<open>sscanf\<close> stores from a line of \<open>/proc/net/tcp\<close> when all twelve conversions
  succeed: the four \<open>unsigned\<close> the code compares and the \<open>int line_uid\<close> (its bits);
  the seven dummies are left out.  In the order of the conversions, the local address
  and port of the line go to \<open>line_our_addr\<close> and \<open>line_our_port\<close>, its remote address
  and port to \<open>line_peer_addr\<close> and \<open>line_peer_port\<close>, and its uid column to
  \<open>line_uid\<close>.
\<close>

record tcp_line =
  line_our_addr :: "32 word"
  line_our_port :: "32 word"
  line_peer_addr :: "32 word"
  line_peer_port :: "32 word"
  line_uid :: "32 word"

text \<open>
  What \<open>check_peer_euid\<close> finds for an accepted socket: the results of
  \<open>getpeername\<close> and \<open>getsockname\<close> (None when the call returns -1), and
  \<open>/proc/net/tcp\<close> (None when \<open>fopen\<close> fails) as the list of the lines \<open>fgets\<close>
  reads, each given by what \<open>sscanf\<close> makes of it: \<open>Some\<close> fields when it returns 12,
  None otherwise.
\<close>

record peer_view =
  getpeername :: "sockaddr_in option"
  getsockname :: "sockaddr_in option"
  proc_net_tcp :: "tcp_line option list option"

datatype peer_error =
  Getpeername_failed
| Unexpected_peer
| Getsockname_failed
| Fopen_failed
| Unexpected_eof
| No_matching_connection

text \<open>The \<open>while (fgets ...)\<close> loop of \<open>check_peer_euid\<close>.\<close>

fun scan_tcp_lines ::
  "sockaddr_in \<Rightarrow> sockaddr_in \<Rightarrow> tcp_line option list \<Rightarrow> peer_error + 32 word" where
  "scan_tcp_lines our peer [] = Inl No_matching_connection"
| "scan_tcp_lines our peer (None # rest) = scan_tcp_lines our peer rest"
| "scan_tcp_lines our peer (Some l # rest) =
    (if line_our_addr l = sin_addr our \<and>
        line_our_port l = ucast (ntohs (sin_port our)) \<and>
        line_peer_addr l = sin_addr peer \<and>
        line_peer_port l = ucast (ntohs (sin_port peer))
     then Inr (line_uid l)
     else scan_tcp_lines our peer rest)"

definition check_peer_euid :: "peer_view \<Rightarrow> peer_error + 32 word" where
  "check_peer_euid v =
    (case getpeername v of
       None \<Rightarrow> Inl Getpeername_failed
     | Some peer \<Rightarrow>
         if sin_family peer \<noteq> AF_INET \<or> ntohl (sin_addr peer) \<noteq> INADDR_LOOPBACK
         then Inl Unexpected_peer
         else
           (case getsockname v of
              None \<Rightarrow> Inl Getsockname_failed
            | Some our \<Rightarrow>
                (case proc_net_tcp v of
                   None \<Rightarrow> Inl Fopen_failed
                 | Some [] \<Rightarrow> Inl Unexpected_eof
                 | Some (first_line # rest) \<Rightarrow> scan_tcp_lines our peer rest)))"


section \<open>The world outside the handle\<close>

text \<open>
  What the code does to the outside is kept as a list of events, in order: the messages
  it reports and the system and library calls it makes.  Debug, trace and verbose
  messages are left out.
\<close>

datatype event =
  Ev_error string
| Ev_perrorf string
| Ev_warning string
| Ev_progress nat
| Ev_external_command_failed
| Ev_launch_failed_error
| Ev_build_appliance
| Ev_cmd_run "string list"
| Ev_socket
| Ev_bind int
| Ev_listen int
| Ev_getsockname int
| Ev_fcntl_nonblock int
| Ev_pipe
| Ev_fork_qemu int
| Ev_fork_recovery int
| Ev_accept
| Ev_recv
| Ev_add_dummy_appliance_drive
| Ev_close int
| Ev_kill int int
| Ev_waitpid int

text \<open>
  A wait status, as \<open>WIFEXITED\<close> and \<open>WEXITSTATUS\<close> read it: the process exited with
  a code, or did not exit normally.
\<close>

datatype wait_status = Exited nat | Not_exited

text \<open>
  Modelled from the spec: \<open>guestfs___cmd_run\<close> of the command \<open>qemu -nographic -help\<close>
  with a whole-buffer stdout callback (the command layer is not among the sources).  The
  call returns -1 (\<open>Cmd_failed\<close>; the callback may or may not have run), or the wait
  status of the process, whose entire standard output, which may be empty, was passed to
  the callback.
\<close>

datatype cmd_result =
  Cmd_failed "string option"
| Cmd_ran wait_status string

text \<open>One connection out of \<open>guestfs___accept_from_daemon\<close>: the descriptor (None for
  -1) and what \<open>check_peer_euid\<close> finds for it.\<close>

record accept_ev =
  accepted :: "nat option"
  peer_view_of :: peer_view

text \<open>
  The world: the events so far, and what each call into the system or into the rest of
  the library answers.  A call that returns a descriptor or -1 answers \<open>Some fd\<close> or
  None; a call that returns 0 or -1 answers whether it succeeded; \<open>fork\<close> answers
  its C int; the \<open>waitpid\<close> of shutdown answers None for -1, or the status.
  \<open>cmd_run\<close> and \<open>accepts\<close> are indexed by the number of earlier calls, counted in
  \<open>n_runs\<close> and \<open>n_accepts\<close>.
  \<open>guestfs___recv_from_daemon\<close> answers its return value, the size word it stores, and
  the state it leaves in \<open>g->state\<close>.
\<close>

record world =
  events :: "event list"
  n_runs :: nat
  cmd_run :: "nat \<Rightarrow> cmd_result"
  build_appliance :: "(string \<times> string \<times> string option) option"
  sys_socket :: "nat option"
  sys_bind :: bool
  sys_listen :: bool
  sys_getsockname :: bool
  sys_fcntl_sock :: bool
  sys_pipe_w :: "(nat \<times> nat) option"
  sys_pipe_r :: "(nat \<times> nat) option"
  sys_fork_qemu :: int
  sys_fork_recovery :: int
  sys_fcntl_w :: bool
  sys_fcntl_r :: bool
  n_accepts :: nat
  accepts :: "nat \<Rightarrow> accept_ev"
  geteuid :: "32 word"
  sys_close_sock :: bool
  sys_fcntl_data :: bool
  recv_r :: int
  recv_size :: "32 word"
  recv_state :: state
  sys_waitpid_qemu :: "wait_status option"

definition emit :: "event \<Rightarrow> world \<Rightarrow> world" where
  "emit e w = w\<lparr>events := events w @ [e]\<rparr>"

text \<open>The C int of a call that returns a descriptor or -1.\<close>

definition fd_result :: "nat option \<Rightarrow> int" where
  "fd_result r = (case r of None \<Rightarrow> - 1 | Some fd \<Rightarrow> int fd)"

definition bool_int :: "bool \<Rightarrow> int" where
  "bool_int b = (if b then 1 else 0)"

section \<open>Testing what qemu supports\<close>

text \<open>
  Modelled from the spec: \<open>match2\<close> with the regular expression \<open>(\d+)\.(\d+)\<close>
  (the matcher is not among the sources): the first occurrence of digits, a dot and
  digits, each run of digits as long as possible.
\<close>

definition is_digit :: "char \<Rightarrow> bool" where
  "is_digit c = (48 \<le> (of_char c :: nat) \<and> (of_char c :: nat) \<le> 57)"

fun match_major_minor :: "string \<Rightarrow> (string \<times> string) option" where
  "match_major_minor [] = None"
| "match_major_minor (c # cs) =
    (case dropWhile is_digit (c # cs) of
       [] \<Rightarrow> match_major_minor cs
     | d # rest \<Rightarrow>
         if is_digit c \<and> d = CHR ''.'' \<and> takeWhile is_digit rest \<noteq> []
         then Some (takeWhile is_digit (c # cs), takeWhile is_digit rest)
         else match_major_minor cs)"

text \<open>
  Modelled from the spec: \<open>guestfs___parse_unsigned_int\<close> on a string of decimal
  digits (not among the sources): its value, or -1 when the value does not fit an int.
\<close>

definition decimal_value :: "string \<Rightarrow> nat" where
  "decimal_value ds = foldl (\<lambda>n c. 10 * n + ((of_char c :: nat) - 48)) 0 ds"

definition parse_unsigned_int :: "string \<Rightarrow> int" where
  "parse_unsigned_int str =
    (if decimal_value str \<le> 2147483647 then int (decimal_value str) else - 1)"

definition parse_qemu_version :: "handle \<Rightarrow> handle" where
  "parse_qemu_version g0 =
    (let g = g0\<lparr>app_qemu_version_major := 0, app_qemu_version_minor := 0\<rparr> in
     case app_qemu_version g of
       None \<Rightarrow> g
     | Some version \<Rightarrow>
         (case match_major_minor version of
            None \<Rightarrow> g
          | Some (major_s, minor_s) \<Rightarrow>
              let major_i = parse_unsigned_int major_s in
              if major_i = - 1 then g
              else
                let minor_i = parse_unsigned_int minor_s in
                if minor_i = - 1 then g
                else g\<lparr>app_qemu_version_major := major_i,
                       app_qemu_version_minor := minor_i\<rparr>))"

text \<open>
  \<open>test_qemu\<close>: the three cached strings are freed, the help command is run with
  \<open>read_all\<close> storing its output in \<open>g->app.qemu_help\<close>, and on success the version
  and the device list are set to the empty string, as the source does.
\<close>

definition test_qemu :: "handle \<Rightarrow> world \<Rightarrow> int \<times> handle \<times> world" where
  "test_qemu g0 w0 =
    (let g = g0\<lparr>app_qemu_help := None, app_qemu_version := None,
                 app_qemu_devices := None\<rparr>;
         w = emit (Ev_cmd_run [qemu g, ''-nographic'', ''-help''])
               (w0\<lparr>n_runs := Suc (n_runs w0)\<rparr>)
     in
       case cmd_run w0 (n_runs w0) of
         Cmd_failed out \<Rightarrow> (- 1, g\<lparr>app_qemu_help := out\<rparr>, w)
       | Cmd_ran status out \<Rightarrow>
           if status \<noteq> Exited 0
           then (- 1, g\<lparr>app_qemu_help := Some out\<rparr>, emit Ev_external_command_failed w)
           else
             (0,
              (parse_qemu_version
                 (g\<lparr>app_qemu_help := Some out, app_qemu_version := Some []\<rparr>))
                \<lparr>app_qemu_devices := Some []\<rparr>,
              w))"

text \<open>
  \<open>qemu_supports\<close> and \<open>qemu_supports_device\<close>.  The result is None where the code
  would hand a NULL pointer to \<open>strstr\<close>.
\<close>

definition qemu_supports ::
  "handle \<Rightarrow> world \<Rightarrow> string option \<Rightarrow> (int \<times> handle \<times> world) option" where
  "qemu_supports g0 w0 option =
    (case (if app_qemu_help g0 = None then test_qemu g0 w0 else (0, g0, w0)) of
       (t, g, w) \<Rightarrow>
         if t = - 1 then Some (- 1, g, w)
         else
           (case option of
              None \<Rightarrow> Some (1, g, w)
            | Some opt \<Rightarrow>
                (case app_qemu_help g of
                   None \<Rightarrow> None
                 | Some help \<Rightarrow> Some (bool_int (strstr help opt), g, w))))"

definition qemu_supports_device ::
  "handle \<Rightarrow> world \<Rightarrow> string \<Rightarrow> (int \<times> handle \<times> world) option" where
  "qemu_supports_device g0 w0 device_name =
    (case (if app_qemu_devices g0 = None then test_qemu g0 w0 else (0, g0, w0)) of
       (t, g, w) \<Rightarrow>
         if t = - 1 then Some (- 1, g, w)
         else
           (case app_qemu_devices g of
              None \<Rightarrow> None
            | Some devices \<Rightarrow> Some (bool_int (strstr devices device_name), g, w)))"

definition old_or_broken_virtio_scsi :: "handle \<Rightarrow> bool" where
  "old_or_broken_virtio_scsi g =
    (app_qemu_version_major g = 1 \<and> app_qemu_version_minor g < 2)"

text \<open>
  \<open>qemu_supports_virtio_scsi\<close>: 1 to use virtio-scsi, 0 to use virtio-blk.
  \<open>g->app.virtio_scsi\<close> is 0 untested, 1 supported, 2 not supported, 3 test failed.
\<close>

definition qemu_supports_virtio_scsi ::
  "handle \<Rightarrow> world \<Rightarrow> (int \<times> handle \<times> world) option" where
  "qemu_supports_virtio_scsi g0 w0 =
    (case (if app_qemu_help g0 = None then test_qemu g0 w0 else (0, g0, w0)) of
       (t, g, w) \<Rightarrow>
         if t = - 1 then Some (0, g, w)
         else
           (case (if app_virtio_scsi g = 0 then
                    (if old_or_broken_virtio_scsi g
                     then Some (g\<lparr>app_virtio_scsi := 2\<rparr>, w)
                     else
                       (case qemu_supports_device g w ''virtio-scsi-pci'' of
                          None \<Rightarrow> None
                        | Some (r, g1, w1) \<Rightarrow>
                            if r > 0 then Some (g1\<lparr>app_virtio_scsi := 1\<rparr>, w1)
                            else if r = 0 then Some (g1\<lparr>app_virtio_scsi := 2\<rparr>, w1)
                            else Some (g1\<lparr>app_virtio_scsi := 3\<rparr>, w1)))
                  else Some (g, w)) of
              None \<Rightarrow> None
            | Some (g2, w2) \<Rightarrow> Some (bool_int (app_virtio_scsi g2 = 1), g2, w2)))"

text \<open>The maximum number of disks.\<close>

definition max_disks_appliance ::
  "handle \<Rightarrow> world \<Rightarrow> (int \<times> handle \<times> world) option" where
  "max_disks_appliance g w =
    (case qemu_supports_virtio_scsi g w of
       None \<Rightarrow> None
     | Some (r, g1, w1) \<Rightarrow> Some (if r \<noteq> 0 then 255 else 27, g1, w1))"

section \<open>The parameter of a drive\<close>

text \<open>
  The loop of \<open>qemu_drive_param\<close> that copies the path into the buffer \<open>r\<close>; the
  buffer is given by what has been written so far, so that \<open>i\<close> is its length.
\<close>

fun copy_path :: "string \<Rightarrow> string \<Rightarrow> string" where
  "copy_path r [] = r"
| "copy_path r (c # p) =
    (if c = CHR '','' then copy_path (r @ [CHR '','', CHR '','']) p
     else copy_path (r @ [c]) p)"

text \<open>\<open>snprintf (buf, size, ...)\<close>: what is written, at most \<open>size - 1\<close> characters.\<close>

definition snprintf :: "nat \<Rightarrow> string \<Rightarrow> string" where
  "snprintf n s = take (n - 1) s"

definition strlen_opt :: "string option \<Rightarrow> nat" where
  "strlen_opt p = (case p of None \<Rightarrow> 0 | Some s \<Rightarrow> length s)"

text \<open>
  What \<open>qemu_drive_param\<close> writes into the buffer \<open>r\<close> of \<open>len\<close> bytes once
  \<open>iface\<close> is chosen: \<open>file=\<close>, the path, and the output of \<open>snprintf\<close> at
  \<open>&r[i]\<close> with the size \<open>len - i\<close>; \<open>len\<close> and \<open>len - i\<close> are \<open>size_t\<close>.
\<close>

definition drive_param_buffer :: "drive \<Rightarrow> string \<Rightarrow> string" where
  "drive_param_buffer drv iface_s =
    (let len = size_t_of (int (128 + length (path drv) * 2 + strlen_opt (iface drv) +
                                strlen_opt (format drv) + strlen_opt (disk_label drv)));
         r = copy_path ''file='' (path drv);
         i = length r
     in r @ snprintf (size_t_of (int len - int i))
              ((if readonly drv then '',snapshot=on'' else '''') @
               (if use_cache_none drv then '',cache=none'' else '''') @
               (case format drv of None \<Rightarrow> '''' | Some f \<Rightarrow> '',format='') @
               (case format drv of None \<Rightarrow> '''' | Some f \<Rightarrow> f) @
               (case disk_label drv of None \<Rightarrow> '''' | Some l \<Rightarrow> '',serial='') @
               (case disk_label drv of None \<Rightarrow> '''' | Some l \<Rightarrow> l) @
               '',if='' @ iface_s))"

text \<open>
  \<open>qemu_drive_param\<close>; \<open>index\<close> is not used.  The result is None where
  \<open>qemu_supports_virtio_scsi\<close> has none.
\<close>

definition qemu_drive_param ::
  "handle \<Rightarrow> world \<Rightarrow> drive \<Rightarrow> nat \<Rightarrow> (string \<times> handle \<times> world) option" where
  "qemu_drive_param g w drv index =
    (case (case iface drv of
             Some s \<Rightarrow> Some (s, g, w)
           | None \<Rightarrow>
               (case qemu_supports_virtio_scsi g w of
                  None \<Rightarrow> None
                | Some (vs, g1, w1) \<Rightarrow>
                    Some (if vs \<noteq> 0 then ''none'' else ''virtio'', g1, w1))) of
       None \<Rightarrow> None
     | Some (iface_s, g1, w1) \<Rightarrow> Some (drive_param_buffer drv iface_s, g1, w1))"

section \<open>The device name of the appliance\<close>

text \<open>
  Modelled from the spec: \<open>guestfs___drive_name\<close> (not among the sources), the base-26
  letter sequence of an index: 0 is a, 25 is z, 26 is aa.
\<close>

function drive_name :: "nat \<Rightarrow> string" where
  "drive_name index =
    (if index \<ge> 26 then drive_name (index div 26 - 1) else []) @
    [char_of (97 + index mod 26)]"
  by pat_completeness auto
termination
  by (relation "measure (\<lambda>index. index)") auto

declare drive_name.simps [simp del]

text \<open>
  \<open>make_appliance_dev\<close>: the loop over the drives counts in \<open>index\<close>; the name is
  written after the seven characters of \<open>dev\<close>.
\<close>

definition make_appliance_dev :: "handle \<Rightarrow> int \<Rightarrow> string" where
  "make_appliance_dev g virtio_scsi =
    (let index =
           foldl (\<lambda>index drv.
                    if virtio_scsi \<noteq> 0 then
                      (case iface drv of
                         None \<Rightarrow> index + 1
                       | Some s \<Rightarrow> if s = ''ide'' then index + 1 else index)
                    else
                      (case iface drv of
                         None \<Rightarrow> index + 1
                       | Some s \<Rightarrow> if s \<noteq> ''virtio'' then index + 1 else index))
                 (0 :: nat) (drives g);
         dev = ''/dev/Xd''[5 := (if virtio_scsi \<noteq> 0 then CHR ''s'' else CHR ''v'')]
     in take 7 dev @ drive_name index)"

section \<open>Shutdown\<close>

definition SIGTERM :: int where
  "SIGTERM = 15"

definition shutdown_appliance :: "handle \<Rightarrow> world \<Rightarrow> int \<Rightarrow> int \<times> handle \<times> world" where
  "shutdown_appliance g w0 check_for_errors =
    (let w1 = (if app_pid g > 0 then emit (Ev_kill (app_pid g) SIGTERM) w0 else w0);
         w2 = (if app_recoverypid g > 0 then emit (Ev_kill (app_recoverypid g) 9) w1
               else w1);
         (ret, w3) =
           (if recovery_proc g \<and> app_pid g > 0 then
              (case sys_waitpid_qemu w2 of
                 None \<Rightarrow>
                   (- 1, emit (Ev_perrorf ''waitpid (qemu)'') (emit (Ev_waitpid (app_pid g)) w2))
               | Some status \<Rightarrow>
                   if status \<noteq> Exited 0
                   then (- 1, emit Ev_external_command_failed
                                (emit (Ev_waitpid (app_pid g)) w2))
                   else (0, emit (Ev_waitpid (app_pid g)) w2))
            else (0, w2));
         w4 = (if app_recoverypid g > 0 then emit (Ev_waitpid (app_recoverypid g)) w3
               else w3)
     in (ret,
         g\<lparr>app_pid := 0, app_recoverypid := 0, app_qemu_help := None,
           app_qemu_version := None, app_qemu_devices := None\<rparr>,
         w4))"

section \<open>Launch\<close>

text \<open>
  Modelled from the spec: \<open>GUESTFS_LAUNCH_FLAG\<close>, the sentinel of the protocol that
  the daemon sends first (its header is not among the sources).
\<close>

definition GUESTFS_LAUNCH_FLAG :: "32 word" where
  "GUESTFS_LAUNCH_FLAG = 0xF5F55FF5"

text \<open>
  The local arrays \<open>wfd\<close> and \<open>rfd\<close> of \<open>launch_appliance\<close>, as
  \<open>((wfd[0], wfd[1]), (rfd[0], rfd[1]))\<close>; None while they are uninitialised, which
  they stay in direct mode.
\<close>

type_synonym pipefds = "((int \<times> int) \<times> (int \<times> int)) option"

text \<open>The code from the label \<open>cleanup0\<close> on.\<close>

definition cleanup0 :: "handle \<Rightarrow> world \<Rightarrow> int \<times> handle \<times> world" where
  "cleanup0 g w =
    (if sock g \<ge> 0
     then (- 1, g\<lparr>sock := - 1, state := CONFIG\<rparr>, emit (Ev_close (sock g)) w)
     else (- 1, g\<lparr>state := CONFIG\<rparr>, w))"

text \<open>
  The two closes at the label \<open>cleanup1\<close>, inside \<open>if (!g->direct)\<close>.  As in the
  source, the second test reads \<open>rfd[1]\<close> and the call closes \<open>rfd[0]\<close>.
\<close>

fun cleanup1_pipes :: "pipefds \<Rightarrow> world \<Rightarrow> world" where
  "cleanup1_pipes None w = w"
| "cleanup1_pipes (Some ((wfd0, wfd1), (rfd0, rfd1))) w =
    (let w1 = (if wfd1 \<ge> 0 then emit (Ev_close wfd1) w else w)
     in if rfd1 \<ge> 0 then emit (Ev_close rfd0) w1 else w1)"

text \<open>The code from the label \<open>cleanup1\<close> on.\<close>

definition cleanup1 :: "handle \<Rightarrow> world \<Rightarrow> pipefds \<Rightarrow> int \<times> handle \<times> world" where
  "cleanup1 g w0 pipes =
    (let w1 = (if \<not> direct g then cleanup1_pipes pipes w0 else w0);
         w2 = (if app_pid g > 0 then emit (Ev_kill (app_pid g) 9) w1 else w1);
         w3 = (if app_recoverypid g > 0 then emit (Ev_kill (app_recoverypid g) 9) w2
               else w2);
         w4 = (if app_pid g > 0 then emit (Ev_waitpid (app_pid g)) w3 else w3);
         w5 = (if app_recoverypid g > 0 then emit (Ev_waitpid (app_recoverypid g)) w4
               else w4);
         w6 = (if fd0 g \<ge> 0 then emit (Ev_close (fd0 g)) w5 else w5);
         w7 = (if fd1 g \<ge> 0 then emit (Ev_close (fd1 g)) w6 else w6)
     in cleanup0
          (g\<lparr>fd0 := - 1, fd1 := - 1, app_pid := 0, app_recoverypid := 0,
             launch_t := (0, 0)\<rparr>)
          w7)"

text \<open>What \<open>check_peer_euid\<close> reports when it fails.\<close>

fun peer_error_event :: "peer_error \<Rightarrow> event" where
  "peer_error_event Getpeername_failed = Ev_perrorf ''getpeername''"
| "peer_error_event Unexpected_peer =
     Ev_error ''check_peer_euid: unexpected connection from non-IPv4, non-loopback peer''"
| "peer_error_event Getsockname_failed = Ev_perrorf ''getsockname''"
| "peer_error_event Fopen_failed = Ev_perrorf ''/proc/net/tcp''"
| "peer_error_event Unexpected_eof = Ev_error ''unexpected end of file in /proc/net/tcp''"
| "peer_error_event No_matching_connection =
     Ev_error ''check_peer_euid: no matching TCP connection found in /proc/net/tcp''"

text \<open>
  The loop \<open>while (r == -1)\<close> that accepts the connection of the daemon: None in the
  first component for \<open>goto cleanup1\<close>, the accepted socket \<open>r\<close> otherwise.  The loop
  has no bound: against connections from other users without end it does not return.
\<close>

partial_function (option) accept_loop :: "world \<Rightarrow> (int option \<times> world) option" where
  "accept_loop w =
    (if fd_result (accepted (accepts w (n_accepts w))) = - 1
     then Some (None, emit Ev_accept (w\<lparr>n_accepts := Suc (n_accepts w)\<rparr>))
     else
       (case check_peer_euid (peer_view_of (accepts w (n_accepts w))) of
          Inl err \<Rightarrow>
            Some (None,
                  emit (peer_error_event err)
                    (emit Ev_accept (w\<lparr>n_accepts := Suc (n_accepts w)\<rparr>)))
        | Inr uid \<Rightarrow>
            if uid \<noteq> geteuid w then
              accept_loop
                (emit (Ev_close (fd_result (accepted (accepts w (n_accepts w)))))
                   (emit (Ev_warning ''unexpected connection'')
                      (emit Ev_accept (w\<lparr>n_accepts := Suc (n_accepts w)\<rparr>))))
            else
              Some (Some (fd_result (accepted (accepts w (n_accepts w)))),
                    emit Ev_accept (w\<lparr>n_accepts := Suc (n_accepts w)\<rparr>))))"

declare accept_loop.simps [code]

text \<open>
  From the close of the listening socket to the end: \<open>r\<close> is the accepted socket.
\<close>

definition launch_handshake ::
  "handle \<Rightarrow> world \<Rightarrow> pipefds \<Rightarrow> int \<Rightarrow> bool \<Rightarrow> int \<times> handle \<times> world" where
  "launch_handshake g0 w0 pipes r has_appliance_drive =
    (let w1 = emit (Ev_close (sock g0)) w0 in
     if \<not> sys_close_sock w1 then
       cleanup1 (g0\<lparr>sock := - 1\<rparr>)
         (emit (Ev_close r) (emit (Ev_perrorf ''close: listening socket'') w1)) pipes
     else
       let g1 = g0\<lparr>sock := r\<rparr>;
           w2 = emit (Ev_fcntl_nonblock (sock g1)) w1
       in
         if \<not> sys_fcntl_data w2 then cleanup1 g1 (emit (Ev_perrorf ''fcntl'') w2) pipes
         else
           let w3 = emit Ev_recv w2;
               g2 = g1\<lparr>state := recv_state w3\<rparr>
           in
             if recv_r w3 = - 1 then cleanup1 g2 (emit Ev_launch_failed_error w3) pipes
             else if recv_size w3 \<noteq> GUESTFS_LAUNCH_FLAG
             then cleanup1 g2 (emit Ev_launch_failed_error w3) pipes
             else if state g2 \<noteq> READY
             then cleanup1 g2
                    (emit (Ev_error
                       ''qemu launched and contacted daemon, but state != READY'') w3)
                    pipes
             else
               (0, g2,
                if has_appliance_drive
                then emit Ev_add_dummy_appliance_drive (emit (Ev_progress 12) w3)
                else emit (Ev_progress 12) w3))"

text \<open>
  From \<open>g->state = LAUNCHING\<close> on: the connection of the daemon.  The result is None
  where the loop does not return.
\<close>

definition launch_accept ::
  "handle \<Rightarrow> world \<Rightarrow> pipefds \<Rightarrow> bool \<Rightarrow> (int \<times> handle \<times> world) option" where
  "launch_accept g0 w0 pipes has_appliance_drive =
    (case accept_loop w0 of
       None \<Rightarrow> None
     | Some (res, w1) \<Rightarrow>
         Some (case res of
                 None \<Rightarrow> cleanup1 (g0\<lparr>state := LAUNCHING\<rparr>) w1 pipes
               | Some r \<Rightarrow>
                   launch_handshake (g0\<lparr>state := LAUNCHING\<rparr>) w1 pipes r
                     has_appliance_drive))"

text \<open>
  The parent's ends of the pipes, inside \<open>if (!g->direct)\<close>: the other ends are
  closed, the parent's ends are made non-blocking and stored in \<open>g->fd\<close>, and
  \<open>wfd[1]\<close> and \<open>rfd[0]\<close> are set to -1.
\<close>

fun launch_pipes ::
  "pipefds \<Rightarrow> handle \<Rightarrow> world \<Rightarrow> bool \<Rightarrow> (int \<times> handle \<times> world) option" where
  "launch_pipes None g w0 has_appliance_drive = launch_accept g w0 None has_appliance_drive"
| "launch_pipes (Some ((wfd0, wfd1), (rfd0, rfd1))) g w0 has_appliance_drive =
    (let w1 = emit (Ev_fcntl_nonblock wfd1) (emit (Ev_close rfd1) (emit (Ev_close wfd0) w0))
     in
       if \<not> sys_fcntl_w w1
       then Some (cleanup1 g (emit (Ev_perrorf ''fcntl'') w1)
                    (Some ((wfd0, wfd1), (rfd0, rfd1))))
       else if \<not> sys_fcntl_r w1
       then Some (cleanup1 g
                    (emit (Ev_perrorf ''fcntl'') (emit (Ev_fcntl_nonblock rfd0) w1))
                    (Some ((wfd0, wfd1), (rfd0, rfd1))))
       else
         launch_accept (g\<lparr>fd0 := wfd1, fd1 := rfd0\<rparr>)
           (emit (Ev_fcntl_nonblock rfd0) w1)
           (Some ((wfd0, - 1), (- 1, rfd1))) has_appliance_drive)"

text \<open>
  The parent after the fork of qemu, with \<open>g->app.pid\<close> set: the recovery process,
  then the pipes and the connection.  In the recovery child (\<open>fork\<close> returns 0) the
  function does not return.
\<close>

definition launch_parent ::
  "handle \<Rightarrow> world \<Rightarrow> pipefds \<Rightarrow> bool \<Rightarrow> (int \<times> handle \<times> world) option" where
  "launch_parent g0 w0 pipes has_appliance_drive =
    (case (if recovery_proc g0 then
             (if sys_fork_recovery w0 = 0 then None
              else Some (g0\<lparr>app_recoverypid := sys_fork_recovery w0\<rparr>,
                         emit (Ev_fork_recovery (sys_fork_recovery w0)) w0))
           else Some (g0\<lparr>app_recoverypid := - 1\<rparr>, w0)) of
       None \<Rightarrow> None
     | Some (g1, w1) \<Rightarrow>
         if \<not> direct g1 then launch_pipes pipes g1 w1 has_appliance_drive
         else launch_accept g1 w1 pipes has_appliance_drive)"

text \<open>The four closes after a failed fork, inside \<open>if (!g->direct)\<close>.\<close>

fun close_pipes :: "pipefds \<Rightarrow> world \<Rightarrow> world" where
  "close_pipes None w = w"
| "close_pipes (Some ((wfd0, wfd1), (rfd0, rfd1))) w =
    emit (Ev_close rfd1) (emit (Ev_close rfd0)
      (emit (Ev_close wfd1) (emit (Ev_close wfd0) w)))"

text \<open>
  The two calls of \<open>pipe\<close>, inside \<open>if (!g->direct)\<close>: the second is not made when
  the first fails.  \<open>Inl\<close> is \<open>goto cleanup0\<close>.
\<close>

definition make_pipes :: "world \<Rightarrow> world + world \<times> pipefds" where
  "make_pipes w0 =
    (case sys_pipe_w w0 of
       None \<Rightarrow> Inl (emit (Ev_perrorf ''pipe'') (emit Ev_pipe w0))
     | Some wfd \<Rightarrow>
         (case sys_pipe_r w0 of
            None \<Rightarrow> Inl (emit (Ev_perrorf ''pipe'') (emit Ev_pipe (emit Ev_pipe w0)))
          | Some rfd \<Rightarrow>
              Inr (emit Ev_pipe (emit Ev_pipe w0),
                   Some ((int (fst wfd), int (snd wfd)), (int (fst rfd), int (snd rfd))))))"

text \<open>
  The pipes and the fork of qemu.  In the child (\<open>fork\<close> returns 0) the function does
  not return: the child builds the command line and calls \<open>execv\<close>, or exits.
\<close>

definition launch_fork ::
  "handle \<Rightarrow> world \<Rightarrow> bool \<Rightarrow> (int \<times> handle \<times> world) option" where
  "launch_fork g w0 has_appliance_drive =
    (case (if \<not> direct g then make_pipes w0 else Inr (w0, None)) of
       Inl w1 \<Rightarrow> Some (cleanup0 g w1)
     | Inr (w1, pipes) \<Rightarrow>
         if sys_fork_qemu w1 = - 1 then
           Some (cleanup0 g
             (let w2 = emit (Ev_perrorf ''fork'') (emit (Ev_fork_qemu (- 1)) w1)
              in if \<not> direct g then close_pipes pipes w2 else w2))
         else if sys_fork_qemu w1 = 0 then None
         else
           launch_parent (g\<lparr>app_pid := sys_fork_qemu w1\<rparr>)
             (emit (Ev_fork_qemu (sys_fork_qemu w1)) w1) pipes has_appliance_drive)"

text \<open>The listening socket.\<close>

definition launch_listen ::
  "handle \<Rightarrow> world \<Rightarrow> bool \<Rightarrow> (int \<times> handle \<times> world) option" where
  "launch_listen g0 w0 has_appliance_drive =
    (let g = g0\<lparr>sock := fd_result (sys_socket w0)\<rparr>;
         w1 = emit Ev_socket w0
     in
       if sock g = - 1 then Some (cleanup0 g (emit (Ev_perrorf ''socket'') w1))
       else if \<not> sys_bind w1
       then Some (cleanup0 g (emit (Ev_perrorf ''bind'') (emit (Ev_bind (sock g)) w1)))
       else if \<not> sys_listen w1
       then Some (cleanup0 g
              (emit (Ev_perrorf ''listen'')
                 (emit (Ev_listen (sock g)) (emit (Ev_bind (sock g)) w1))))
       else if \<not> sys_getsockname w1
       then Some (cleanup0 g
              (emit (Ev_perrorf ''getsockname'')
                 (emit (Ev_getsockname (sock g))
                    (emit (Ev_listen (sock g)) (emit (Ev_bind (sock g)) w1)))))
       else if \<not> sys_fcntl_sock w1
       then Some (cleanup0 g
              (emit (Ev_perrorf ''fcntl'')
                 (emit (Ev_fcntl_nonblock (sock g))
                    (emit (Ev_getsockname (sock g))
                       (emit (Ev_listen (sock g)) (emit (Ev_bind (sock g)) w1))))))
       else
         launch_fork g
           (emit (Ev_fcntl_nonblock (sock g))
              (emit (Ev_getsockname (sock g))
                 (emit (Ev_listen (sock g)) (emit (Ev_bind (sock g)) w1))))
           has_appliance_drive)"

text \<open>
  \<open>launch_appliance\<close>; the result is None where the call does not return.
\<close>

definition launch_appliance :: "handle \<Rightarrow> world \<Rightarrow> (int \<times> handle \<times> world) option" where
  "launch_appliance g w0 =
    (if length (drives g) = 0 then
       Some (- 1, g,
             emit (Ev_error ''you must call guestfs_add_drive before guestfs_launch'') w0)
     else
       (case build_appliance w0 of
          None \<Rightarrow> Some (- 1, g, emit Ev_build_appliance (emit (Ev_progress 0) w0))
        | Some (kernel_file, initrd_file, appliance) \<Rightarrow>
            (case qemu_supports g
                    (emit (Ev_progress 3)
                       (emit Ev_build_appliance (emit (Ev_progress 0) w0)))
                    None of
               None \<Rightarrow> None
             | Some (r, g1, w1) \<Rightarrow>
                 if r = - 1 then Some (cleanup0 g1 w1)
                 else launch_listen g1 w1 (appliance \<noteq> None))))"

section \<open>Example inputs\<close>

text \<open>
  An accepted loopback connection from port 0x1234 to our port 0x5678, and a TCP table
  with a header, a line of another connection, a line that does not scan, and two lines
  of this connection.
\<close>

definition example_peer :: sockaddr_in where
  "example_peer = \<lparr>sin_family = 2, sin_port = 0x3412, sin_addr = 0x0100007F\<rparr>"

definition example_our :: sockaddr_in where
  "example_our = \<lparr>sin_family = 2, sin_port = 0x7856, sin_addr = 0x0100007F\<rparr>"

definition example_line :: "nat \<Rightarrow> nat \<Rightarrow> nat \<Rightarrow> tcp_line" where
  "example_line our_port peer_port uid =
    \<lparr>line_our_addr = 0x0100007F, line_our_port = of_nat our_port,
     line_peer_addr = 0x0100007F, line_peer_port = of_nat peer_port,
     line_uid = of_nat uid\<rparr>"

definition example_table :: "tcp_line option list" where
  "example_table =
    [None, Some (example_line 0x5678 0x9999 0), None,
     Some (example_line 0x5678 0x1234 1000), Some (example_line 0x5678 0x1234 0)]"

definition example_view :: peer_view where
  "example_view =
    \<lparr>getpeername = Some example_peer, getsockname = Some example_our,
     proc_net_tcp = Some example_table\<rparr>"

text \<open>
  Drives: one whose path has commas, read-only, with a format and the ide interface;
  one with nothing set but its path; one on virtio.
\<close>

definition example_drive_ide :: drive where
  "example_drive_ide =
    \<lparr>path = ''/a,b,c.img'', iface = Some ''ide'', format = Some ''raw'', disk_label = None,
     readonly = True, use_cache_none = False\<rparr>"

definition example_drive_plain :: drive where
  "example_drive_plain =
    \<lparr>path = ''/d1'', iface = None, format = None, disk_label = None,
     readonly = False, use_cache_none = False\<rparr>"

definition example_drive_virtio :: drive where
  "example_drive_virtio =
    \<lparr>path = ''/d2'', iface = Some ''virtio'', format = None, disk_label = Some ''data'',
     readonly = False, use_cache_none = True\<rparr>"

text \<open>A handle as it is before the first launch, with the three drives.\<close>

definition example_handle :: handle where
  "example_handle =
    \<lparr>state = CONFIG, qemu = ''/usr/bin/qemu-kvm'',
     drives = [example_drive_ide, example_drive_plain, example_drive_virtio],
     direct = False, recovery_proc = True, sock = - 1, fd0 = - 1, fd1 = - 1,
     launch_t = (1382000000, 250000), app_pid = 0, app_recoverypid = 0,
     app_qemu_help = None, app_qemu_version = None, app_qemu_devices = None,
     app_qemu_version_major = 0, app_qemu_version_minor = 0, app_virtio_scsi = 0\<rparr>"

text \<open>
  A world in which every call succeeds: qemu prints a help text, the daemon connects
  from our own uid and sends the launch flag.
\<close>

definition example_world :: world where
  "example_world =
    \<lparr>events = [], n_runs = 0,
     cmd_run = (\<lambda>n. Cmd_ran (Exited 0) ''-machine -global -nodefaults''),
     build_appliance = Some (''vmlinuz'', ''initrd'', Some ''root''),
     sys_socket = Some 3, sys_bind = True, sys_listen = True, sys_getsockname = True,
     sys_fcntl_sock = True, sys_pipe_w = Some (4, 5), sys_pipe_r = Some (6, 7),
     sys_fork_qemu = 1001, sys_fork_recovery = 1002, sys_fcntl_w = True,
     sys_fcntl_r = True, n_accepts = 0,
     accepts = (\<lambda>n. \<lparr>accepted = Some 8, peer_view_of = example_view\<rparr>),
     geteuid = 1000, sys_close_sock = True, sys_fcntl_data = True, recv_r = 0,
     recv_size = 0xF5F55FF5, recv_state = READY, sys_waitpid_qemu = Some (Exited 0)\<rparr>"

text \<open>
  Handles with a cached probe: the help text, and a version and a device list as a qemu
  of that version could print them.  A world in which qemu cannot be run.
\<close>

definition example_probed :: "int \<Rightarrow> int \<Rightarrow> string option \<Rightarrow> handle" where
  "example_probed major_i minor_i devices_text =
    example_handle
      \<lparr>app_qemu_help := Some ''-machine -global -nodefaults'',
       app_qemu_version := Some ''QEMU emulator'',
       app_qemu_devices := devices_text,
       app_qemu_version_major := major_i, app_qemu_version_minor := minor_i\<rparr>"

definition example_devices :: string where
  "example_devices = ''name virtio-scsi-pci, bus PCI''"

definition example_world_no_qemu :: world where
  "example_world_no_qemu = example_world\<lparr>cmd_run := (\<lambda>n. Cmd_failed None)\<rparr>"

section \<open>Vocabulary of the properties\<close>

text \<open>
  A line of the TCP table agrees with the socket when its local and remote addresses are
  the local and peer addresses of the socket as they are, in network byte order, and
  its local and remote ports are the ports of the socket with their bytes swapped.
\<close>

abbreviation tuple_agrees :: "sockaddr_in \<Rightarrow> sockaddr_in \<Rightarrow> tcp_line \<Rightarrow> bool" where
  "tuple_agrees our peer l \<equiv>
     line_our_addr l = sin_addr our \<and> line_peer_addr l = sin_addr peer \<and>
     line_our_port l = ucast (ntohs (sin_port our)) \<and>
     line_peer_port l = ucast (ntohs (sin_port peer))"

text \<open>The options string \<open>'a b'\<close>: one argument in single quotes.\<close>

definition example_quoted_options :: string where
  "example_quoted_options = [CHR 0x27, CHR ''a'', CHR '' '', CHR ''b'', CHR 0x27]"

text \<open>
  The parameter string of a drive as the specification gives it, for the interface
  \<open>I\<close> that comes last: the path with every comma doubled, then the optional parts
  in their order.
\<close>

definition spec_escape_path :: "string \<Rightarrow> string" where
  "spec_escape_path p = concat (map (\<lambda>c. if c = CHR '','' then '',,'' else [c]) p)"

definition spec_drive_param :: "drive \<Rightarrow> string \<Rightarrow> string" where
  "spec_drive_param d I =
    ''file='' @ spec_escape_path (path d) @
    (if readonly d then '',snapshot=on'' else '''') @
    (if use_cache_none d then '',cache=none'' else '''') @
    (case format d of None \<Rightarrow> '''' | Some fmt \<Rightarrow> '',format='' @ fmt) @
    (case disk_label d of None \<Rightarrow> '''' | Some label \<Rightarrow> '',serial='' @ label) @
    '',if='' @ I"

text \<open>The drives that the specification counts for the device name of the appliance.\<close>

definition spec_counted :: "bool \<Rightarrow> drive \<Rightarrow> bool" where
  "spec_counted virtio_scsi d =
    (if virtio_scsi then iface d = None \<or> iface d = Some ''ide''
     else iface d = None \<or> iface d \<noteq> Some ''virtio'')"

text \<open>The events between two worlds, the second coming after the first.\<close>

definition new_events :: "world \<Rightarrow> world \<Rightarrow> event list" where
  "new_events w w' = drop (length (events w)) (events w')"

text \<open>
  The calls that the code from \<open>cleanup1\<close> on makes, in their order, for the handle
  and the pipe descriptors it finds: first those on the local arrays.
\<close>

fun cleanup1_pipe_calls :: "pipefds \<Rightarrow> event list" where
  "cleanup1_pipe_calls None = []"
| "cleanup1_pipe_calls (Some ((wfd0, wfd1), (rfd0, rfd1))) =
    (if 0 \<le> wfd1 then [Ev_close wfd1] else []) @
    (if 0 \<le> rfd1 then [Ev_close rfd0] else [])"

definition cleanup1_calls :: "handle \<Rightarrow> pipefds \<Rightarrow> event list" where
  "cleanup1_calls g pipes =
    (if \<not> direct g then cleanup1_pipe_calls pipes else []) @
    (if 0 < app_pid g then [Ev_kill (app_pid g) 9] else []) @
    (if 0 < app_recoverypid g then [Ev_kill (app_recoverypid g) 9] else []) @
    (if 0 < app_pid g then [Ev_waitpid (app_pid g)] else []) @
    (if 0 < app_recoverypid g then [Ev_waitpid (app_recoverypid g)] else []) @
    (if 0 \<le> fd0 g then [Ev_close (fd0 g)] else []) @
    (if 0 \<le> fd1 g then [Ev_close (fd1 g)] else []) @
    (if 0 \<le> sock g then [Ev_close (sock g)] else [])"

text \<open>What a world answers, without its events and its counters.\<close>

definition answers :: "world \<Rightarrow> world" where
  "answers w = w\<lparr>events := [], n_runs := 0, n_accepts := 0\<rparr>"

text \<open>
  A handle that has not been probed, as it is before the first call of this file: the
  three cached texts are NULL and \<open>g->app.virtio_scsi\<close> is 0.
\<close>

definition unprobed :: "handle \<Rightarrow> bool" where
  "unprobed g =
    (app_qemu_help g = None \<and> app_qemu_version g = None \<and> app_qemu_devices g = None \<and>
     app_virtio_scsi g = 0)"

text \<open>
  The calls of this file that write the handle, and the handle that a call leaves, in
  the world it is made in: None where the call does not return.  The child of
  \<open>launch_appliance\<close> calls \<open>qemu_supports\<close>, \<open>qemu_supports_virtio_scsi\<close> and
  \<open>qemu_drive_param\<close> on its copy of the handle, which is the handle that
  \<open>qemu_supports g NULL\<close> has left in the parent.
\<close>

datatype call =
  Call_test_qemu
| Call_qemu_supports "string option"
| Call_qemu_supports_device string
| Call_qemu_supports_virtio_scsi
| Call_qemu_drive_param drive nat
| Call_max_disks
| Call_shutdown int
| Call_launch

fun handle_after :: "call \<Rightarrow> handle \<Rightarrow> world \<Rightarrow> handle option" where
  "handle_after Call_test_qemu g w = Some (fst (snd (test_qemu g w)))"
| "handle_after (Call_qemu_supports option) g w =
    map_option (\<lambda>r. fst (snd r)) (qemu_supports g w option)"
| "handle_after (Call_qemu_supports_device device_name) g w =
    map_option (\<lambda>r. fst (snd r)) (qemu_supports_device g w device_name)"
| "handle_after Call_qemu_supports_virtio_scsi g w =
    map_option (\<lambda>r. fst (snd r)) (qemu_supports_virtio_scsi g w)"
| "handle_after (Call_qemu_drive_param drv index) g w =
    map_option (\<lambda>r. fst (snd r)) (qemu_drive_param g w drv index)"
| "handle_after Call_max_disks g w =
    map_option (\<lambda>r. fst (snd r)) (max_disks_appliance g w)"
| "handle_after (Call_shutdown check_for_errors) g w =
    Some (fst (snd (shutdown_appliance g w check_for_errors)))"
| "handle_after Call_launch g w = map_option (\<lambda>r. fst (snd r)) (launch_appliance g w)"

text \<open>The handle after a sequence of calls, each made in a world of its own.\<close>

fun handle_after_calls :: "(call \<times> world) list \<Rightarrow> handle \<Rightarrow> handle option" where
  "handle_after_calls [] g = Some g"
| "handle_after_calls ((c, w) # calls) g =
    (case handle_after c g w of
       None \<Rightarrow> None
     | Some g1 \<Rightarrow> handle_after_calls calls g1)"

text \<open>
  The answers of \<open>qemu_supports_virtio_scsi\<close> called again and again on a handle, each
  call in a world of its own and on the handle that the call before has left: None where
  a call does not return.
\<close>

fun repeated_calls :: "world list \<Rightarrow> handle \<Rightarrow> int list option" where
  "repeated_calls [] g = Some []"
| "repeated_calls (w # ws) g =
    (case qemu_supports_virtio_scsi g w of
       None \<Rightarrow> None
     | Some (r, g1, w1) \<Rightarrow> map_option (\<lambda>rs. r # rs) (repeated_calls ws g1))"

section \<open>Properties\<close>

subsection \<open>The peer of a TCP socket\<close>

lemma scan_tcp_lines_first:
  "i < length lines \<Longrightarrow> lines ! i = Some l \<Longrightarrow> tuple_agrees our peer l \<Longrightarrow>
   (\<forall>j<i. \<forall>l'. lines ! j = Some l' \<longrightarrow> \<not> tuple_agrees our peer l') \<Longrightarrow>
   scan_tcp_lines our peer lines = Inr (line_uid l)"
proof (induction our peer lines arbitrary: i rule: scan_tcp_lines.induct)
  case (1 our peer)
  then show ?case by simp
next
  case (2 our peer rest)
  then obtain k where k: "i = Suc k" by (cases i) auto
  with 2 show ?case by fastforce
next
  case (3 our peer x rest)
  show ?case
  proof (cases i)
    case 0
    with 3 show ?thesis by simp
  next
    case (Suc k)
    with 3(3-) have "\<not> tuple_agrees our peer x" by fastforce
    moreover have "scan_tcp_lines our peer rest = Inr (line_uid l)"
      using 3(2-) Suc by (intro 3(1)[of k]) auto
    ultimately show ?thesis by auto
  qed
qed

lemma scan_tcp_lines_none:
  "(\<forall>l. Some l \<in> set lines \<longrightarrow> \<not> tuple_agrees our peer l) \<Longrightarrow>
   scan_tcp_lines our peer lines = Inl No_matching_connection"
  by (induction our peer lines rule: scan_tcp_lines.induct) auto

text \<open>
  C1.  When \<open>getpeername\<close> gives a peer that is not IPv4 or not the loopback address,
  \<open>check_peer_euid\<close> fails.  When the peer is an IPv4 loopback address, \<open>getsockname\<close>
  succeeds and the TCP table has its header line, \<open>check_peer_euid\<close> returns the uid
  of the first line after the header that scans and agrees with the socket (local and
  remote addresses as they are, local and remote ports byte-swapped), and fails when no
  line agrees.
\<close>

theorem check_peer_euid_first_match:
  "(\<forall>peer. getpeername v = Some peer \<and>
       (sin_family peer \<noteq> AF_INET \<or> ntohl (sin_addr peer) \<noteq> INADDR_LOOPBACK) \<longrightarrow>
       check_peer_euid v = Inl Unexpected_peer) \<and>
   (\<forall>peer our first_line lines.
       getpeername v = Some peer \<and> sin_family peer = AF_INET \<and>
       ntohl (sin_addr peer) = INADDR_LOOPBACK \<and> getsockname v = Some our \<and>
       proc_net_tcp v = Some (first_line # lines) \<longrightarrow>
       (\<forall>i l. i < length lines \<and> lines ! i = Some l \<and> tuple_agrees our peer l \<and>
              (\<forall>j<i. \<forall>l'. lines ! j = Some l' \<longrightarrow> \<not> tuple_agrees our peer l') \<longrightarrow>
              check_peer_euid v = Inr (line_uid l)) \<and>
       ((\<forall>l. Some l \<in> set lines \<longrightarrow> \<not> tuple_agrees our peer l) \<longrightarrow>
        check_peer_euid v = Inl No_matching_connection))"
proof (intro conjI allI impI, goal_cases)
  case (1 peer)
  then show ?case by (auto simp: check_peer_euid_def)
next
  case (2 peer our first_line lines i l)
  then have "scan_tcp_lines our peer lines = Inr (line_uid l)"
    by (intro scan_tcp_lines_first[of i]) auto
  with 2 show ?case by (simp add: check_peer_euid_def)
next
  case (3 peer our first_line lines)
  then have "scan_tcp_lines our peer lines = Inl No_matching_connection"
    by (intro scan_tcp_lines_none) auto
  with 3 show ?case by (simp add: check_peer_euid_def)
qed

lemma all_less_two: "(\<forall>j<2::nat. P j) \<longleftrightarrow> P 0 \<and> P 1"
  by (auto simp: less_2_cases_iff)

lemmas example_defs = example_view_def example_table_def example_line_def example_peer_def
  example_our_def AF_INET_def INADDR_LOOPBACK_def ntohl_def ntohs_def

theorem check_peer_euid_first_match_witness:
  "check_peer_euid example_view = Inr 1000 \<and>
   check_peer_euid (example_view\<lparr>proc_net_tcp := Some (take 3 example_table)\<rparr>) =
     Inl No_matching_connection \<and>
   check_peer_euid
     (example_view\<lparr>getpeername := Some (example_peer\<lparr>sin_addr := 0x0200007F\<rparr>)\<rparr>) =
     Inl Unexpected_peer"
proof (intro conjI)
  have "\<forall>i l. i < length (tl example_table) \<and> tl example_table ! i = Some l \<and>
          tuple_agrees example_our example_peer l \<and>
          (\<forall>j<i. \<forall>l'. tl example_table ! j = Some l' \<longrightarrow>
             \<not> tuple_agrees example_our example_peer l') \<longrightarrow>
          check_peer_euid example_view = Inr (line_uid l)"
    using check_peer_euid_first_match [of example_view]
    by (simp add: example_defs)
  then have "2 < length (tl example_table) \<and>
      tl example_table ! 2 = Some (example_line 0x5678 0x1234 1000) \<and>
      tuple_agrees example_our example_peer (example_line 0x5678 0x1234 1000) \<and>
      (\<forall>j<2. \<forall>l'. tl example_table ! j = Some l' \<longrightarrow>
         \<not> tuple_agrees example_our example_peer l') \<longrightarrow>
      check_peer_euid example_view = Inr (line_uid (example_line 0x5678 0x1234 1000))"
    by blast
  then show "check_peer_euid example_view = Inr 1000"
    by (simp add: example_defs all_less_two)
next
  show "check_peer_euid (example_view\<lparr>proc_net_tcp := Some (take 3 example_table)\<rparr>) =
     Inl No_matching_connection"
    using check_peer_euid_first_match
      [of "example_view\<lparr>proc_net_tcp := Some (take 3 example_table)\<rparr>"]
    by (simp add: example_defs)
next
  show "check_peer_euid
     (example_view\<lparr>getpeername := Some (example_peer\<lparr>sin_addr := 0x0200007F\<rparr>)\<rparr>) =
     Inl Unexpected_peer"
    using check_peer_euid_first_match
      [of "example_view\<lparr>getpeername := Some (example_peer\<lparr>sin_addr := 0x0200007F\<rparr>)\<rparr>"]
    by (simp add: example_defs)
qed

subsection \<open>Splitting a string of options\<close>

text \<open>
  For a string that starts with a quote character, \<open>strchr\<close> finds that character
  itself, so \<open>endp\<close> is \<open>options\<close>.
\<close>

lemma strchr_opening_quote: "strchr (q # rest) q = Some 0"
  by simp

text \<open>
  A quoted argument whose first character is not a space is refused, whatever follows
  it; the message for an unclosed quote is never the result.
\<close>

lemma shell_token_quoted:
  assumes "q = CHR 0x27 \<or> q = CHR 0x22" and "c \<noteq> CHR '' ''" and "c \<noteq> NUL"
  shows "shell_token (q # c # rest) = Inl (Cannot_parse_quoted (q # c # rest))"
  using assms by (auto simp: shell_token_def char_at_def Let_def NUL_def)

lemma shell_token_quoted_refused:
  assumes "q = CHR 0x27 \<or> q = CHR 0x22" and "c \<noteq> CHR '' ''" and "c \<noteq> NUL"
  shows "add_cmdline_shell_unquoted cmdline (q # c # rest) =
         Inl (Cannot_parse_quoted (q # c # rest))"
  by (subst add_cmdline_shell_unquoted.simps) (simp add: shell_token_quoted[OF assms])

lemma shell_token_never_unclosed: "shell_token options \<noteq> Inl (Unclosed_quote q s)"
proof (cases options)
  case Nil
  then show ?thesis
    by (simp add: shell_token_def char_at_def NUL_def)
next
  case (Cons c rest)
  then show ?thesis
    by (auto simp: shell_token_def char_at_def Let_def split: option.splits)
qed

text \<open>
  C2.  On the options string \<open>'a b'\<close>, whose quotes are balanced,
  \<open>add_cmdline_shell_unquoted\<close> adds no argument: it stops with the message that the
  quoted string cannot be parsed.
\<close>

theorem add_cmdline_shell_unquoted_quoted_example:
  "add_cmdline_shell_unquoted [] example_quoted_options =
   Inl (Cannot_parse_quoted example_quoted_options)"
  by (simp add: example_quoted_options_def shell_token_def char_at_def NUL_def Let_def)

subsection \<open>The parameter of a drive and the device name of the appliance\<close>

lemma copy_path_escape: "copy_path r p = r @ spec_escape_path p"
  by (induction p arbitrary: r) (simp_all add: spec_escape_path_def)

lemma length_escape_path: "length (spec_escape_path p) \<le> 2 * length p"
  by (induction p) (simp_all add: spec_escape_path_def)

lemma snprintf_fits: "length s < n \<Longrightarrow> snprintf n s = s"
  by (simp add: snprintf_def)

lemma size_t_of_small: "0 \<le> i \<Longrightarrow> i < 2 ^ 64 \<Longrightarrow> size_t_of i = nat i"
  by (simp add: size_t_of_def)

lemma drive_param_fits:
  assumes big: "128 + length (path d) * 2 + strlen_opt (iface d) + strlen_opt (format d) +
             strlen_opt (disk_label d) < 2 ^ 64"
    and I: "length I \<le> strlen_opt (iface d) + 6"
  shows "drive_param_buffer d I = spec_drive_param d I"
proof -
  let ?len = "128 + length (path d) * 2 + strlen_opt (iface d) + strlen_opt (format d) +
              strlen_opt (disk_label d)"
  let ?text = "(if readonly d then '',snapshot=on'' else '''') @
            (if use_cache_none d then '',cache=none'' else '''') @
            (case format d of None \<Rightarrow> '''' | Some f \<Rightarrow> '',format='') @
            (case format d of None \<Rightarrow> '''' | Some f \<Rightarrow> f) @
            (case disk_label d of None \<Rightarrow> '''' | Some l \<Rightarrow> '',serial='') @
            (case disk_label d of None \<Rightarrow> '''' | Some l \<Rightarrow> l) @
            '',if='' @ I"
  have len: "size_t_of (int ?len) = ?len"
    using big by (simp add: size_t_of_def)
  have i: "length (copy_path ''file='' (path d)) \<le> 5 + 2 * length (path d)"
    using length_escape_path [of "path d"] by (simp add: copy_path_escape)
  have tlen: "length ?text \<le> 43 + strlen_opt (format d) + strlen_opt (disk_label d) + length I"
    by (simp add: strlen_opt_def split: option.splits)
  have bigi: "int ?len < 2 ^ 64"
    using big of_nat_less_iff [where ?'a = int, of ?len "2 ^ 64"] by simp
  have "int ?len - int (length (copy_path ''file='' (path d))) < 2 ^ 64"
    using bigi by linarith
  moreover have "0 \<le> int ?len - int (length (copy_path ''file='' (path d)))"
    using i by linarith
  ultimately have sz: "size_t_of (int ?len - int (length (copy_path ''file='' (path d)))) =
      ?len - length (copy_path ''file='' (path d))"
    using i by (simp add: size_t_of_def nat_diff_distrib')
  have "length ?text < ?len - length (copy_path ''file='' (path d))"
    using i tlen I by linarith
  then have "snprintf (?len - length (copy_path ''file='' (path d))) ?text = ?text"
    by (rule snprintf_fits)
  then show ?thesis
    unfolding drive_param_buffer_def Let_def len sz
    by (simp add: copy_path_escape spec_drive_param_def split: option.splits)
qed


text \<open>
  C3.  For a drive whose strings fit the address space, the parameter that
  \<open>qemu_drive_param\<close> returns is \<open>file=\<close> and the path with every comma doubled
  and no other character changed, then \<open>,snapshot=on\<close> iff the drive is read-only,
  \<open>,cache=none\<close> iff \<open>use_cache_none\<close>, \<open>,format=\<close> and the format iff it is set,
  \<open>,serial=\<close> and the label iff it is set, and last \<open>,if=\<close> with the \<open>iface\<close> of
  the drive when it is set, else \<open>none\<close> when \<open>qemu_supports_virtio_scsi\<close> chooses
  virtio-scsi, else \<open>virtio\<close>.
\<close>

theorem qemu_drive_param_string:
  assumes "128 + length (path d) * 2 + strlen_opt (iface d) + strlen_opt (format d) +
           strlen_opt (disk_label d) < 2 ^ 64"
  shows "qemu_drive_param g w d index =
    (case iface d of
       Some s \<Rightarrow> Some (spec_drive_param d s, g, w)
     | None \<Rightarrow>
         (case qemu_supports_virtio_scsi g w of
            None \<Rightarrow> None
          | Some (vs, g1, w1) \<Rightarrow>
              Some (spec_drive_param d (if vs \<noteq> 0 then ''none'' else ''virtio''), g1, w1)))"
proof (cases "iface d")
  case None
  have "length (if vs \<noteq> 0 then ''none'' else ''virtio'') \<le> strlen_opt (iface d) + 6"
    for vs :: int
    by simp
  then show ?thesis
    using None
    by (simp add: qemu_drive_param_def drive_param_fits [OF assms]
        split: option.splits)
next
  case (Some s)
  then have "length s \<le> strlen_opt (iface d) + 6"
    by (simp add: strlen_opt_def)
  then show ?thesis
    using Some
    by (simp add: qemu_drive_param_def drive_param_fits [OF assms])
qed

lemma count_foldl:
  "foldl (\<lambda>index drv. if P drv then index + 1 else index) n ds = n + length (filter P ds)"
  by (induction ds arbitrary: n) simp_all

text \<open>
  C4.  The device name of the appliance is \<open>/dev/sd\<close> under virtio-scsi and
  \<open>/dev/vd\<close> otherwise, followed by the drive name of the number of drives whose
  \<open>iface\<close> is unset or \<open>ide\<close> under virtio-scsi, and unset or other than \<open>virtio\<close>
  otherwise.
\<close>

theorem make_appliance_dev_path:
  "make_appliance_dev g vs =
   (if vs \<noteq> 0 then ''/dev/sd'' else ''/dev/vd'') @
   drive_name (length (filter (spec_counted (vs \<noteq> 0)) (drives g)))"
proof -
  have "(\<lambda>index drv.
           if vs \<noteq> 0 then
             (case iface drv of
                None \<Rightarrow> index + 1
              | Some s \<Rightarrow> if s = ''ide'' then index + 1 else index)
           else
             (case iface drv of
                None \<Rightarrow> index + 1
              | Some s \<Rightarrow> if s \<noteq> ''virtio'' then index + 1 else index)) =
        (\<lambda>(index :: nat) drv. if spec_counted (vs \<noteq> 0) drv then index + 1 else index)"
    by (auto simp: fun_eq_iff spec_counted_def split: option.splits)
  then show ?thesis
    by (simp add: make_appliance_dev_def count_foldl)
qed

lemma drive_name_examples:
  "drive_name 0 = ''a''" "drive_name 1 = ''b''" "drive_name 25 = ''z''"
  "drive_name 26 = ''aa''" "drive_name 27 = ''ab''" "drive_name 701 = ''zz''"
  "drive_name 702 = ''aaa''"
  by code_simp+

lemmas example_handle_defs = example_handle_def example_drive_ide_def
  example_drive_plain_def example_drive_virtio_def

theorem qemu_drive_param_string_witness:
  "qemu_drive_param example_handle example_world example_drive_ide 0 =
     Some (''file=/a,,b,,c.img,snapshot=on,format=raw,if=ide'', example_handle,
           example_world) \<and>
   map_option fst (qemu_drive_param example_handle example_world example_drive_plain 1) =
     Some ''file=/d1,if=virtio''"
proof
  have "128 + length (path example_drive_ide) * 2 + strlen_opt (iface example_drive_ide) +
        strlen_opt (format example_drive_ide) + strlen_opt (disk_label example_drive_ide)
        < 2 ^ 64"
    by (simp add: example_drive_ide_def strlen_opt_def)
  from qemu_drive_param_string [OF this, of example_handle example_world 0]
  show "qemu_drive_param example_handle example_world example_drive_ide 0 =
     Some (''file=/a,,b,,c.img,snapshot=on,format=raw,if=ide'', example_handle,
           example_world)"
    by (simp add: example_drive_ide_def spec_drive_param_def spec_escape_path_def)
next
  have "128 + length (path example_drive_plain) * 2 +
        strlen_opt (iface example_drive_plain) + strlen_opt (format example_drive_plain) +
        strlen_opt (disk_label example_drive_plain) < 2 ^ 64"
    by (simp add: example_drive_plain_def strlen_opt_def)
  from qemu_drive_param_string [OF this, of example_handle example_world 1]
  show "map_option fst
          (qemu_drive_param example_handle example_world example_drive_plain 1) =
        Some ''file=/d1,if=virtio''"
    by (simp add: example_drive_plain_def spec_drive_param_def spec_escape_path_def
        qemu_supports_virtio_scsi_def qemu_supports_device_def test_qemu_def
        parse_qemu_version_def old_or_broken_virtio_scsi_def example_handle_def
        example_world_def emit_def bool_int_def Let_def)
qed

theorem make_appliance_dev_path_witness:
  "make_appliance_dev example_handle 1 = ''/dev/sdc'' \<and>
   make_appliance_dev (example_handle\<lparr>drives := [example_drive_virtio]\<rparr>) 0 = ''/dev/vda''"
proof -
  have "drive_name (Suc (Suc 0)) = ''c''" and "drive_name 0 = ''a''"
    by code_simp+
  then show ?thesis
    using make_appliance_dev_path [of example_handle 1]
      make_appliance_dev_path [of "example_handle\<lparr>drives := [example_drive_virtio]\<rparr>" 0]
    by (simp add: example_handle_defs spec_counted_def)
qed


subsection \<open>The choice of the disk bus\<close>

lemma parse_qemu_version_empty:
  "app_qemu_version g = Some [] \<Longrightarrow>
   parse_qemu_version g = g\<lparr>app_qemu_version_major := 0, app_qemu_version_minor := 0\<rparr>"
  by (simp add: parse_qemu_version_def)

lemma test_qemu_cases:
  assumes "test_qemu g w = (t, g', w')"
  shows "(t = - 1 \<and> app_qemu_devices g' = None \<and> app_qemu_version g' = None \<and>
          app_qemu_version_major g' = app_qemu_version_major g \<and>
          app_qemu_version_minor g' = app_qemu_version_minor g) \<or>
         (t = 0 \<and> app_qemu_help g' \<noteq> None \<and> app_qemu_version g' = Some [] \<and>
          app_qemu_devices g' = Some [] \<and> app_qemu_version_major g' = 0 \<and>
          app_qemu_version_minor g' = 0 \<and> events w' = events w @ [Ev_cmd_run [qemu g, ''-nographic'', ''-help'']])"
  using assms
  by (auto simp: test_qemu_def Let_def parse_qemu_version_empty emit_def
      split: cmd_result.splits if_splits)

lemma test_qemu_frame:
  assumes "test_qemu g w = (t, g', w')"
  shows "app_virtio_scsi g' = app_virtio_scsi g"
    and "g' = g\<lparr>app_qemu_help := app_qemu_help g', app_qemu_version := app_qemu_version g',
                  app_qemu_devices := app_qemu_devices g',
                  app_qemu_version_major := app_qemu_version_major g',
                  app_qemu_version_minor := app_qemu_version_minor g'\<rparr>"
    and "w' = w\<lparr>events := events w', n_runs := n_runs w'\<rparr>"
  using assms
  by (auto simp: test_qemu_def Let_def parse_qemu_version_empty emit_def
      split: cmd_result.splits if_splits)

lemma qemu_supports_device_cached:
  "app_qemu_devices g = Some d \<Longrightarrow>
   qemu_supports_device g w name = Some (bool_int (strstr d name), g, w)"
  by (simp add: qemu_supports_device_def)

lemma qemu_supports_device_uncached:
  assumes "app_qemu_devices g = None" and "test_qemu g w = (t, g', w')"
  shows "qemu_supports_device g w name =
         Some (if t = - 1 then - 1 else bool_int (name = []), g', w')"
  using assms test_qemu_cases [OF assms(2)]
  by (auto simp: qemu_supports_device_def)

lemma qemu_supports_device_total:
  "\<exists>r g' w'. qemu_supports_device g w name = Some (r, g', w') \<and>
     (r = - 1 \<or> r = 0 \<or> r = 1) \<and> app_virtio_scsi g' = app_virtio_scsi g"
proof (cases "app_qemu_devices g")
  case None
  obtain t g' w' where t: "test_qemu g w = (t, g', w')"
    by (cases "test_qemu g w") auto
  show ?thesis
    using qemu_supports_device_uncached [OF None t, of name] test_qemu_frame(1) [OF t]
    by (auto simp: bool_int_def)
next
  case (Some d)
  then show ?thesis
    by (simp add: qemu_supports_device_cached bool_int_def)
qed

text \<open>With the help text cached, the function is the decision alone.\<close>

lemma qsvs_decided:
  "app_qemu_help g = Some h \<Longrightarrow> app_virtio_scsi g \<noteq> 0 \<Longrightarrow>
   qemu_supports_virtio_scsi g w = Some (bool_int (app_virtio_scsi g = 1), g, w)"
  by (simp add: qemu_supports_virtio_scsi_def)

lemma qsvs_broken:
  "app_qemu_help g = Some h \<Longrightarrow> app_virtio_scsi g = 0 \<Longrightarrow>
   app_qemu_version_major g = 1 \<Longrightarrow> app_qemu_version_minor g < 2 \<Longrightarrow>
   qemu_supports_virtio_scsi g w = Some (0, g\<lparr>app_virtio_scsi := 2\<rparr>, w)"
  by (simp add: qemu_supports_virtio_scsi_def old_or_broken_virtio_scsi_def bool_int_def)

lemma qsvs_query_cached:
  "app_qemu_help g = Some h \<Longrightarrow> app_virtio_scsi g = 0 \<Longrightarrow>
   \<not> (app_qemu_version_major g = 1 \<and> app_qemu_version_minor g < 2) \<Longrightarrow>
   app_qemu_devices g = Some d \<Longrightarrow>
   qemu_supports_virtio_scsi g w =
     (if strstr d ''virtio-scsi-pci'' then Some (1, g\<lparr>app_virtio_scsi := 1\<rparr>, w)
      else Some (0, g\<lparr>app_virtio_scsi := 2\<rparr>, w))"
  by (auto simp: qemu_supports_virtio_scsi_def old_or_broken_virtio_scsi_def bool_int_def
      qemu_supports_device_cached)

lemma qsvs_query_uncached:
  assumes "app_qemu_help g = Some h" and "app_virtio_scsi g = 0"
    and "\<not> (app_qemu_version_major g = 1 \<and> app_qemu_version_minor g < 2)"
    and "app_qemu_devices g = None" and "test_qemu g w = (t, g', w')"
  shows "qemu_supports_virtio_scsi g w =
         Some (0, g'\<lparr>app_virtio_scsi := (if t = - 1 then 3 else 2)\<rparr>, w')"
  using assms test_qemu_cases [OF assms(5)]
  by (auto simp: qemu_supports_virtio_scsi_def old_or_broken_virtio_scsi_def bool_int_def
      qemu_supports_device_uncached [OF assms(4,5)])

text \<open>Without the help text, the function first runs \<open>test_qemu\<close>.\<close>

lemma qsvs_probe_failed:
  "app_qemu_help g = None \<Longrightarrow> test_qemu g w = (- 1, g', w') \<Longrightarrow>
   qemu_supports_virtio_scsi g w = Some (0, g', w')"
  by (simp add: qemu_supports_virtio_scsi_def)

lemma qsvs_probe_ok:
  assumes "app_qemu_help g = None" and "test_qemu g w = (t, g', w')" and "t \<noteq> - 1"
  shows "qemu_supports_virtio_scsi g w =
         Some (bool_int (app_virtio_scsi g = 1),
               g'\<lparr>app_virtio_scsi := (if app_virtio_scsi g = 0 then 2 else app_virtio_scsi g)\<rparr>,
               w')"
proof -
  from test_qemu_cases [OF assms(2)] assms(3)
  have ok: "t = 0" "app_qemu_help g' \<noteq> None" "app_qemu_devices g' = Some []"
    "app_qemu_version_major g' = 0" "app_qemu_version_minor g' = 0"
    by auto
  have vs: "app_virtio_scsi g' = app_virtio_scsi g"
    by (rule test_qemu_frame(1) [OF assms(2)])
  show ?thesis
  proof (cases "app_virtio_scsi g = 0")
    case True
    with ok vs assms show ?thesis
      by (simp add: qemu_supports_virtio_scsi_def old_or_broken_virtio_scsi_def
          bool_int_def qemu_supports_device_cached)
  next
    case False
    have "g'\<lparr>app_virtio_scsi := app_virtio_scsi g\<rparr> = g'"
      using vs by simp
    with False ok vs assms show ?thesis
      by (simp add: qemu_supports_virtio_scsi_def)
  qed
qed

lemma qsvs_again:
  assumes "app_virtio_scsi g \<noteq> 0" and "app_virtio_scsi g = 1 \<longrightarrow> app_qemu_help g \<noteq> None"
  shows "\<exists>g2 w3. qemu_supports_virtio_scsi g w = Some (bool_int (app_virtio_scsi g = 1), g2, w3) \<and>
           app_virtio_scsi g2 = app_virtio_scsi g"
proof (cases "app_qemu_help g")
  case (Some h)
  with assms(1) show ?thesis
    by (simp add: qsvs_decided)
next
  case None
  with assms(2) have not1: "app_virtio_scsi g \<noteq> 1"
    by simp
  obtain t g' w' where t: "test_qemu g w = (t, g', w')"
    by (cases "test_qemu g w") auto
  show ?thesis
  proof (cases "t = - 1")
    case True
    with None t not1 test_qemu_frame(1) [OF t] show ?thesis
      by (simp add: qsvs_probe_failed bool_int_def)
  next
    case False
    with None t assms(1) show ?thesis
      by (simp add: qsvs_probe_ok)
  qed
qed

lemma qsvs_first:
  assumes "app_qemu_help g \<noteq> None \<or> fst (test_qemu g w) \<noteq> - 1"
  shows "\<exists>g1 w1. qemu_supports_virtio_scsi g w =
            Some (bool_int (app_virtio_scsi g1 = 1), g1, w1) \<and>
          app_virtio_scsi g1 \<noteq> 0 \<and>
          (app_virtio_scsi g1 = 1 \<longrightarrow> app_qemu_help g1 \<noteq> None)"
proof (cases "app_qemu_help g")
  case None
  obtain t g' w' where t: "test_qemu g w = (t, g', w')"
    by (cases "test_qemu g w") auto
  with None assms have ok: "t \<noteq> - 1"
    by simp
  with test_qemu_cases [OF t] have "app_qemu_help g' \<noteq> None"
    by auto
  then show ?thesis
    using qsvs_probe_ok [OF None t ok] test_qemu_frame(1) [OF t]
    by (auto simp: bool_int_def)
next
  case (Some h)
  show ?thesis
  proof (cases "app_virtio_scsi g = 0")
    case False
    with Some show ?thesis
      by (simp add: qsvs_decided)
  next
    case untested: True
    show ?thesis
    proof (cases "app_qemu_version_major g = 1 \<and> app_qemu_version_minor g < 2")
      case True
      with Some untested show ?thesis
        by (simp add: qsvs_broken bool_int_def)
    next
      case False
      show ?thesis
      proof (cases "app_qemu_devices g")
        case (Some d)
        with \<open>app_qemu_help g = Some h\<close> untested False show ?thesis
          by (simp add: qsvs_query_cached bool_int_def)
      next
        case None
        obtain t g' w' where t: "test_qemu g w = (t, g', w')"
          by (cases "test_qemu g w") auto
        show ?thesis
          using qsvs_query_uncached [OF Some untested False None t]
          by (simp add: bool_int_def)
      qed
    qed
  qed
qed

lemma qsvs_total:
  "\<exists>r g1 w1. qemu_supports_virtio_scsi g w = Some (r, g1, w1) \<and> (r = 0 \<or> r = 1) \<and>
     (r = 1 \<longrightarrow> app_virtio_scsi g1 = 1)"
proof (cases "app_qemu_help g \<noteq> None \<or> fst (test_qemu g w) \<noteq> - 1")
  case True
  from qsvs_first [OF True] show ?thesis
    by (auto simp: bool_int_def)
next
  case False
  then have "app_qemu_help g = None" and "test_qemu g w = (- 1, snd (test_qemu g w))"
    by (auto simp: prod_eq_iff)
  then show ?thesis
    by (cases "snd (test_qemu g w)") (simp add: qsvs_probe_failed)
qed

lemma qsvs_broken_blk:
  assumes "app_virtio_scsi g = 0" and "app_qemu_version_major g = 1"
    and "app_qemu_version_minor g < 2"
  shows "\<exists>g1 w1. qemu_supports_virtio_scsi g w = Some (0, g1, w1)"
proof (cases "app_qemu_help g")
  case (Some h)
  with assms show ?thesis
    by (simp add: qsvs_broken)
next
  case None
  obtain t g' w' where t: "test_qemu g w = (t, g', w')"
    by (cases "test_qemu g w") auto
  show ?thesis
  proof (cases "t = - 1")
    case True
    with None t show ?thesis
      by (simp add: qsvs_probe_failed)
  next
    case False
    with None t assms(1) show ?thesis
      by (simp add: qsvs_probe_ok bool_int_def)
  qed
qed

text \<open>Calls on a decided handle, and the calls that return early.\<close>

lemma qsvs_again_help:
  assumes "app_virtio_scsi g \<noteq> 0" and "app_virtio_scsi g = 1 \<longrightarrow> app_qemu_help g \<noteq> None"
  shows "\<exists>g2 w3. qemu_supports_virtio_scsi g w =
             Some (bool_int (app_virtio_scsi g = 1), g2, w3) \<and>
           app_virtio_scsi g2 = app_virtio_scsi g \<and>
           (app_virtio_scsi g2 = 1 \<longrightarrow> app_qemu_help g2 \<noteq> None)"
proof (cases "app_virtio_scsi g = 1")
  case True
  with assms(2) obtain h where "app_qemu_help g = Some h"
    by auto
  with True show ?thesis
    by (simp add: qsvs_decided)
next
  case False
  with qsvs_again [OF assms, of w] show ?thesis
    by auto
qed

lemma repeated_calls_decided:
  assumes "app_virtio_scsi g \<noteq> 0" and "app_virtio_scsi g = 1 \<longrightarrow> app_qemu_help g \<noteq> None"
  shows "repeated_calls ws g =
    Some (replicate (length ws) (bool_int (app_virtio_scsi g = 1)))"
  using assms
proof (induction ws arbitrary: g)
  case Nil
  show ?case
    by simp
next
  case (Cons w ws)
  from qsvs_again_help [OF Cons.prems, of w] obtain g2 w3 where
    call: "qemu_supports_virtio_scsi g w = Some (bool_int (app_virtio_scsi g = 1), g2, w3)"
    and vs: "app_virtio_scsi g2 = app_virtio_scsi g"
    and hlp: "app_virtio_scsi g2 = 1 \<longrightarrow> app_qemu_help g2 \<noteq> None"
    by blast
  from Cons.prems(1) vs have "app_virtio_scsi g2 \<noteq> 0"
    by simp
  from Cons.IH [OF this hlp] call vs show ?case
    by simp
qed

lemma qsvs_early_return:
  assumes "app_qemu_help g = None" and "fst (test_qemu g w) = - 1"
  shows "\<exists>g1 w1. qemu_supports_virtio_scsi g w = Some (0, g1, w1) \<and>
    app_virtio_scsi g1 = app_virtio_scsi g"
proof -
  obtain t g' w' where t: "test_qemu g w = (t, g', w')"
    by (cases "test_qemu g w") auto
  with assms(2) have "t = - 1"
    by simp
  with t assms(1) test_qemu_frame(1) [OF t] show ?thesis
    by (simp add: qsvs_probe_failed)
qed

lemma qsvs_fresh_probe:
  assumes "app_virtio_scsi g = 0" and "app_qemu_help g = None"
    and "fst (test_qemu g w) \<noteq> - 1"
  shows "\<exists>g1 w1. qemu_supports_virtio_scsi g w = Some (0, g1, w1) \<and> app_virtio_scsi g1 = 2"
proof -
  obtain t g' w' where t: "test_qemu g w = (t, g', w')"
    by (cases "test_qemu g w") auto
  with assms(3) have "t \<noteq> - 1"
    by simp
  from qsvs_probe_ok [OF assms(2) t this] assms(1) show ?thesis
    by (simp add: bool_int_def)
qed

lemma qsvs_query_uncached_state:
  assumes "app_virtio_scsi g = 0"
    and "\<not> (app_qemu_version_major g = 1 \<and> app_qemu_version_minor g < 2)"
    and "app_qemu_help g \<noteq> None" and "app_qemu_devices g = None"
  shows "\<exists>g1 w1. qemu_supports_virtio_scsi g w = Some (0, g1, w1) \<and>
    app_virtio_scsi g1 = (if fst (test_qemu g w) = - 1 then 3 else 2)"
proof -
  obtain t g' w' where t: "test_qemu g w = (t, g', w')"
    by (cases "test_qemu g w") auto
  from assms(3) obtain h where h: "app_qemu_help g = Some h"
    by auto
  from qsvs_query_uncached [OF h assms(1,2,4) t] t show ?thesis
    by simp
qed

text \<open>
  C5.  \<open>qemu_supports_virtio_scsi\<close> always returns, 0 (virtio-blk) or 1 (virtio-scsi),
  and 1 only in the state 1 (supported).  When the help text is not cached and the probe
  fails, it returns 0 and leaves the state as it was.  When the help text is cached or
  the probe succeeds, the call leaves a decided state, it returns 1 exactly in the state
  1, a further call on the handle it leaves keeps the state, and all further calls on
  that handle, in any worlds, return the same answer.  A decided handle with the help text cached is answered by
  its state, whatever its version.  An undecided handle whose version is 1.x with x
  below 2 gets 0, and the state 2 (not supported) when the help text is cached.  An
  undecided handle of another version, with the help text cached, gets 1 and the state
  1 when the cached device list has \<open>virtio-scsi-pci\<close>, and 0 and the state 2 when it
  has not; when the device list is not cached, it gets 0, and the state 3 (the test
  failed) when the probe fails and the state 2 when it succeeds.  An undecided handle
  without the help text, when the probe succeeds, gets 0 and the state 2.
\<close>

theorem qemu_supports_virtio_scsi_decision:
  "(\<exists>r g1 w1. qemu_supports_virtio_scsi g w = Some (r, g1, w1) \<and> (r = 0 \<or> r = 1) \<and>
      (r = 1 \<longrightarrow> app_virtio_scsi g1 = 1) \<and>
      (app_qemu_help g = None \<and> fst (test_qemu g w) = - 1 \<longrightarrow>
         r = 0 \<and> app_virtio_scsi g1 = app_virtio_scsi g) \<and>
      (app_qemu_help g \<noteq> None \<or> fst (test_qemu g w) \<noteq> - 1 \<longrightarrow>
         app_virtio_scsi g1 \<noteq> 0 \<and> (r = 1 \<longleftrightarrow> app_virtio_scsi g1 = 1) \<and>
         (\<forall>w2. \<exists>g2 w3. qemu_supports_virtio_scsi g1 w2 = Some (r, g2, w3) \<and>
                  app_virtio_scsi g2 = app_virtio_scsi g1) \<and>
         (\<forall>ws. repeated_calls ws g1 = Some (replicate (length ws) r)))) \<and>
   (app_virtio_scsi g \<noteq> 0 \<and> app_qemu_help g \<noteq> None \<longrightarrow>
      qemu_supports_virtio_scsi g w = Some (bool_int (app_virtio_scsi g = 1), g, w)) \<and>
   (app_virtio_scsi g = 0 \<and> app_qemu_version_major g = 1 \<and> app_qemu_version_minor g < 2 \<longrightarrow>
      (\<exists>g1 w1. qemu_supports_virtio_scsi g w = Some (0, g1, w1)) \<and>
      (app_qemu_help g \<noteq> None \<longrightarrow>
         qemu_supports_virtio_scsi g w = Some (0, g\<lparr>app_virtio_scsi := 2\<rparr>, w))) \<and>
   (\<forall>d. app_virtio_scsi g = 0 \<and>
        \<not> (app_qemu_version_major g = 1 \<and> app_qemu_version_minor g < 2) \<and>
        app_qemu_help g \<noteq> None \<and> app_qemu_devices g = Some d \<longrightarrow>
        qemu_supports_virtio_scsi g w =
          (if strstr d ''virtio-scsi-pci'' then Some (1, g\<lparr>app_virtio_scsi := 1\<rparr>, w)
           else Some (0, g\<lparr>app_virtio_scsi := 2\<rparr>, w))) \<and>
   (app_virtio_scsi g = 0 \<and>
      \<not> (app_qemu_version_major g = 1 \<and> app_qemu_version_minor g < 2) \<and>
      app_qemu_help g \<noteq> None \<and> app_qemu_devices g = None \<longrightarrow>
      (\<exists>g1 w1. qemu_supports_virtio_scsi g w = Some (0, g1, w1) \<and>
         app_virtio_scsi g1 = (if fst (test_qemu g w) = - 1 then 3 else 2))) \<and>
   (app_virtio_scsi g = 0 \<and> app_qemu_help g = None \<and> fst (test_qemu g w) \<noteq> - 1 \<longrightarrow>
      (\<exists>g1 w1. qemu_supports_virtio_scsi g w = Some (0, g1, w1) \<and> app_virtio_scsi g1 = 2))"
proof -
  have first: "\<exists>r g1 w1. qemu_supports_virtio_scsi g w = Some (r, g1, w1) \<and> (r = 0 \<or> r = 1) \<and>
      (r = 1 \<longrightarrow> app_virtio_scsi g1 = 1) \<and>
      (app_qemu_help g = None \<and> fst (test_qemu g w) = - 1 \<longrightarrow>
         r = 0 \<and> app_virtio_scsi g1 = app_virtio_scsi g) \<and>
      (app_qemu_help g \<noteq> None \<or> fst (test_qemu g w) \<noteq> - 1 \<longrightarrow>
         app_virtio_scsi g1 \<noteq> 0 \<and> (r = 1 \<longleftrightarrow> app_virtio_scsi g1 = 1) \<and>
         (\<forall>w2. \<exists>g2 w3. qemu_supports_virtio_scsi g1 w2 = Some (r, g2, w3) \<and>
                  app_virtio_scsi g2 = app_virtio_scsi g1) \<and>
         (\<forall>ws. repeated_calls ws g1 = Some (replicate (length ws) r)))"
  proof (cases "app_qemu_help g \<noteq> None \<or> fst (test_qemu g w) \<noteq> - 1")
    case False
    then have "app_qemu_help g = None" and "fst (test_qemu g w) = - 1"
      by simp_all
    from qsvs_early_return [OF this] False show ?thesis
      by auto
  next
    case True
    from qsvs_first [OF True] obtain g1 w1 where
      call: "qemu_supports_virtio_scsi g w = Some (bool_int (app_virtio_scsi g1 = 1), g1, w1)"
      and dec: "app_virtio_scsi g1 \<noteq> 0"
      and hlp: "app_virtio_scsi g1 = 1 \<longrightarrow> app_qemu_help g1 \<noteq> None"
      by blast
    have again: "\<exists>g2 w3. qemu_supports_virtio_scsi g1 w2 =
             Some (bool_int (app_virtio_scsi g1 = 1), g2, w3) \<and>
           app_virtio_scsi g2 = app_virtio_scsi g1" for w2
      by (rule qsvs_again [OF dec hlp])
    have rep: "repeated_calls ws g1 =
        Some (replicate (length ws) (bool_int (app_virtio_scsi g1 = 1)))" for ws
      by (rule repeated_calls_decided [OF dec hlp])
    from True have no_early: "\<not> (app_qemu_help g = None \<and> fst (test_qemu g w) = - 1)"
      by simp
    show ?thesis
    proof (intro exI conjI)
      show "qemu_supports_virtio_scsi g w =
          Some (bool_int (app_virtio_scsi g1 = 1), g1, w1)"
        by (rule call)
      show "bool_int (app_virtio_scsi g1 = 1) = 0 \<or> bool_int (app_virtio_scsi g1 = 1) = 1"
        by (simp add: bool_int_def)
      show "bool_int (app_virtio_scsi g1 = 1) = 1 \<longrightarrow> app_virtio_scsi g1 = 1"
        by (simp add: bool_int_def)
      show "app_qemu_help g = None \<and> fst (test_qemu g w) = - 1 \<longrightarrow>
          bool_int (app_virtio_scsi g1 = 1) = 0 \<and> app_virtio_scsi g1 = app_virtio_scsi g"
        using no_early by blast
      show "app_qemu_help g \<noteq> None \<or> fst (test_qemu g w) \<noteq> - 1 \<longrightarrow>
         app_virtio_scsi g1 \<noteq> 0 \<and>
         (bool_int (app_virtio_scsi g1 = 1) = 1 \<longleftrightarrow> app_virtio_scsi g1 = 1) \<and>
         (\<forall>w2. \<exists>g2 w3. qemu_supports_virtio_scsi g1 w2 =
                    Some (bool_int (app_virtio_scsi g1 = 1), g2, w3) \<and>
                  app_virtio_scsi g2 = app_virtio_scsi g1) \<and>
         (\<forall>ws. repeated_calls ws g1 =
            Some (replicate (length ws) (bool_int (app_virtio_scsi g1 = 1))))"
        using dec again rep by (simp add: bool_int_def)
    qed
  qed
  have decided: "app_virtio_scsi g \<noteq> 0 \<and> app_qemu_help g \<noteq> None \<longrightarrow>
      qemu_supports_virtio_scsi g w = Some (bool_int (app_virtio_scsi g = 1), g, w)"
    by (auto simp: qsvs_decided)
  have broken: "app_virtio_scsi g = 0 \<and> app_qemu_version_major g = 1 \<and>
      app_qemu_version_minor g < 2 \<longrightarrow>
      (\<exists>g1 w1. qemu_supports_virtio_scsi g w = Some (0, g1, w1)) \<and>
      (app_qemu_help g \<noteq> None \<longrightarrow>
         qemu_supports_virtio_scsi g w = Some (0, g\<lparr>app_virtio_scsi := 2\<rparr>, w))"
    by (auto intro: qsvs_broken_blk simp: qsvs_broken)
  have cached: "\<forall>d. app_virtio_scsi g = 0 \<and>
        \<not> (app_qemu_version_major g = 1 \<and> app_qemu_version_minor g < 2) \<and>
        app_qemu_help g \<noteq> None \<and> app_qemu_devices g = Some d \<longrightarrow>
        qemu_supports_virtio_scsi g w =
          (if strstr d ''virtio-scsi-pci'' then Some (1, g\<lparr>app_virtio_scsi := 1\<rparr>, w)
           else Some (0, g\<lparr>app_virtio_scsi := 2\<rparr>, w))"
    by (auto simp: qsvs_query_cached)
  have uncached: "app_virtio_scsi g = 0 \<and>
      \<not> (app_qemu_version_major g = 1 \<and> app_qemu_version_minor g < 2) \<and>
      app_qemu_help g \<noteq> None \<and> app_qemu_devices g = None \<longrightarrow>
      (\<exists>g1 w1. qemu_supports_virtio_scsi g w = Some (0, g1, w1) \<and>
         app_virtio_scsi g1 = (if fst (test_qemu g w) = - 1 then 3 else 2))"
    using qsvs_query_uncached_state [of g w] by blast
  have fresh: "app_virtio_scsi g = 0 \<and> app_qemu_help g = None \<and>
      fst (test_qemu g w) \<noteq> - 1 \<longrightarrow>
      (\<exists>g1 w1. qemu_supports_virtio_scsi g w = Some (0, g1, w1) \<and> app_virtio_scsi g1 = 2)"
    using qsvs_fresh_probe [of g w] by blast
  from first decided broken cached uncached fresh show ?thesis
    by (intro conjI)
qed

lemma strstr_example_devices: "strstr example_devices ''virtio-scsi-pci''"
  by (simp add: example_devices_def)

lemma example_probed_fields:
  "app_qemu_help (example_probed a b d) = Some ''-machine -global -nodefaults''"
  "app_virtio_scsi (example_probed a b d) = 0"
  "app_qemu_version_major (example_probed a b d) = a"
  "app_qemu_version_minor (example_probed a b d) = b"
  "app_qemu_devices (example_probed a b d) = d"
  by (simp_all add: example_probed_def example_handle_def)

theorem qemu_supports_virtio_scsi_decision_witness:
  "qemu_supports_virtio_scsi (example_probed 1 1 (Some example_devices)) example_world =
     Some (0, (example_probed 1 1 (Some example_devices))\<lparr>app_virtio_scsi := 2\<rparr>,
           example_world) \<and>
   qemu_supports_virtio_scsi (example_probed 2 1 (Some example_devices)) example_world =
     Some (1, (example_probed 2 1 (Some example_devices))\<lparr>app_virtio_scsi := 1\<rparr>,
           example_world) \<and>
   qemu_supports_virtio_scsi (example_probed 2 1 (Some '''')) example_world =
     Some (0, (example_probed 2 1 (Some ''''))\<lparr>app_virtio_scsi := 2\<rparr>, example_world) \<and>
   (\<exists>g1 w1. qemu_supports_virtio_scsi (example_probed 2 1 None) example_world_no_qemu =
              Some (0, g1, w1) \<and> app_virtio_scsi g1 = 3) \<and>
   repeated_calls [example_world_no_qemu, example_world, example_world_no_qemu]
     ((example_probed 2 1 (Some example_devices))\<lparr>app_virtio_scsi := 1\<rparr>) =
     Some [1, 1, 1] \<and>
   qemu_supports_virtio_scsi
     ((example_probed 1 1 (Some example_devices))\<lparr>app_virtio_scsi := 3\<rparr>) example_world =
     Some (0, (example_probed 1 1 (Some example_devices))\<lparr>app_virtio_scsi := 3\<rparr>,
           example_world) \<and>
   (\<exists>g1 w1. qemu_supports_virtio_scsi example_handle example_world_no_qemu =
              Some (0, g1, w1) \<and> app_virtio_scsi g1 = 0) \<and>
   (\<exists>g1 w1. qemu_supports_virtio_scsi example_handle example_world =
              Some (0, g1, w1) \<and> app_virtio_scsi g1 = 2)"
proof (intro conjI)
  note sticky = qemu_supports_virtio_scsi_decision [THEN conjunct1]
  note decided = qemu_supports_virtio_scsi_decision [THEN conjunct2, THEN conjunct1]
  note broken = qemu_supports_virtio_scsi_decision
    [THEN conjunct2, THEN conjunct2, THEN conjunct1]
  note cached = qemu_supports_virtio_scsi_decision
    [THEN conjunct2, THEN conjunct2, THEN conjunct2, THEN conjunct1, THEN spec]
  note uncached = qemu_supports_virtio_scsi_decision
    [THEN conjunct2, THEN conjunct2, THEN conjunct2, THEN conjunct2, THEN conjunct1]
  note fresh = qemu_supports_virtio_scsi_decision
    [THEN conjunct2, THEN conjunct2, THEN conjunct2, THEN conjunct2, THEN conjunct2]
  have no_qemu: "fst (test_qemu g example_world_no_qemu) = - 1" for g
    by (simp add: test_qemu_def example_world_no_qemu_def example_world_def Let_def)
  have with_qemu: "fst (test_qemu g example_world) = 0" for g
    by (simp add: test_qemu_def example_world_def Let_def)
  have fresh_handle: "app_qemu_help example_handle = None"
    "app_virtio_scsi example_handle = 0"
    by (simp_all add: example_handle_def)
  show "qemu_supports_virtio_scsi (example_probed 1 1 (Some example_devices)) example_world =
     Some (0, (example_probed 1 1 (Some example_devices))\<lparr>app_virtio_scsi := 2\<rparr>,
           example_world)"
    using broken [of "example_probed 1 1 (Some example_devices)" example_world]
    by (simp add: example_probed_fields)
  show second: "qemu_supports_virtio_scsi (example_probed 2 1 (Some example_devices))
       example_world =
     Some (1, (example_probed 2 1 (Some example_devices))\<lparr>app_virtio_scsi := 1\<rparr>,
           example_world)"
    using cached [of "example_probed 2 1 (Some example_devices)" example_devices example_world]
      strstr_example_devices
    by (simp add: example_probed_fields)
  show "qemu_supports_virtio_scsi (example_probed 2 1 (Some '''')) example_world =
     Some (0, (example_probed 2 1 (Some ''''))\<lparr>app_virtio_scsi := 2\<rparr>, example_world)"
    using cached [of "example_probed 2 1 (Some '''')" "''''" example_world]
    by (simp add: example_probed_fields)
  show "\<exists>g1 w1. qemu_supports_virtio_scsi (example_probed 2 1 None)
        example_world_no_qemu = Some (0, g1, w1) \<and> app_virtio_scsi g1 = 3"
    using uncached [of "example_probed 2 1 None" example_world_no_qemu] no_qemu
    by (simp add: example_probed_fields)
  from sticky [of "example_probed 2 1 (Some example_devices)" example_world]
  obtain r g1 w1 where
    "qemu_supports_virtio_scsi (example_probed 2 1 (Some example_devices)) example_world =
       Some (r, g1, w1)"
    and "app_qemu_help (example_probed 2 1 (Some example_devices)) \<noteq> None \<or>
         fst (test_qemu (example_probed 2 1 (Some example_devices)) example_world) \<noteq> - 1 \<longrightarrow>
         (\<forall>ws. repeated_calls ws g1 = Some (replicate (length ws) r))"
    by blast
  with second have "\<forall>ws. repeated_calls ws
       ((example_probed 2 1 (Some example_devices))\<lparr>app_virtio_scsi := 1\<rparr>) =
     Some (replicate (length ws) 1)"
    by (simp add: example_probed_fields)
  from this [THEN spec, of "[example_world_no_qemu, example_world, example_world_no_qemu]"]
  show "repeated_calls [example_world_no_qemu, example_world, example_world_no_qemu]
     ((example_probed 2 1 (Some example_devices))\<lparr>app_virtio_scsi := 1\<rparr>) =
     Some [1, 1, 1]"
    by (simp add: numeral_3_eq_3)
  show "qemu_supports_virtio_scsi
     ((example_probed 1 1 (Some example_devices))\<lparr>app_virtio_scsi := 3\<rparr>) example_world =
     Some (0, (example_probed 1 1 (Some example_devices))\<lparr>app_virtio_scsi := 3\<rparr>,
           example_world)"
    using decided [of "(example_probed 1 1 (Some example_devices))\<lparr>app_virtio_scsi := 3\<rparr>"
        example_world]
    by (simp add: example_probed_fields bool_int_def)
  from sticky [of example_handle example_world_no_qemu]
  obtain r g1 w1 where
    "qemu_supports_virtio_scsi example_handle example_world_no_qemu = Some (r, g1, w1)"
    and "app_qemu_help example_handle = None \<and>
         fst (test_qemu example_handle example_world_no_qemu) = - 1 \<longrightarrow>
         r = 0 \<and> app_virtio_scsi g1 = app_virtio_scsi example_handle"
    by blast
  with no_qemu fresh_handle
  show "\<exists>g1 w1. qemu_supports_virtio_scsi example_handle example_world_no_qemu =
              Some (0, g1, w1) \<and> app_virtio_scsi g1 = 0"
    by simp
  show "\<exists>g1 w1. qemu_supports_virtio_scsi example_handle example_world =
              Some (0, g1, w1) \<and> app_virtio_scsi g1 = 2"
    using fresh [of example_handle example_world] with_qemu fresh_handle
    by simp
qed

text \<open>
  On a handle not yet probed, when qemu cannot be run, the call returns 0 and leaves the
  state 0 (not tested): nothing is decided.  A handle in the state 1 answers 1 while its
  help text is cached, also with the version 1.1; after \<open>shutdown_appliance\<close>, which
  frees the help text and keeps the state, it answers 0 when qemu cannot be run.
\<close>

theorem qemu_supports_virtio_scsi_not_sticky:
  "qemu_supports_virtio_scsi example_handle example_world_no_qemu =
     Some (0, example_handle,
           example_world_no_qemu\<lparr>events :=
               [Ev_cmd_run [''/usr/bin/qemu-kvm'', ''-nographic'', ''-help'']],
             n_runs := 1\<rparr>) \<and>
   app_virtio_scsi example_handle = 0 \<and>
   qemu_supports_virtio_scsi
     ((example_probed 1 1 (Some example_devices))\<lparr>app_virtio_scsi := 1\<rparr>) example_world =
     Some (1, (example_probed 1 1 (Some example_devices))\<lparr>app_virtio_scsi := 1\<rparr>,
           example_world) \<and>
   shutdown_appliance
     ((example_probed 1 1 (Some example_devices))\<lparr>app_virtio_scsi := 1\<rparr>) example_world 0 =
     (0, example_handle\<lparr>app_qemu_version_major := 1, app_qemu_version_minor := 1,
           app_virtio_scsi := 1\<rparr>,
      example_world) \<and>
   qemu_supports_virtio_scsi
     (example_handle\<lparr>app_qemu_version_major := 1, app_qemu_version_minor := 1,
        app_virtio_scsi := 1\<rparr>)
     example_world_no_qemu =
     Some (0, example_handle\<lparr>app_qemu_version_major := 1, app_qemu_version_minor := 1,
                app_virtio_scsi := 1\<rparr>,
           example_world_no_qemu\<lparr>events :=
               [Ev_cmd_run [''/usr/bin/qemu-kvm'', ''-nographic'', ''-help'']],
             n_runs := 1\<rparr>)"
  by (simp add: qemu_supports_virtio_scsi_def test_qemu_def shutdown_appliance_def Let_def
      bool_int_def emit_def example_probed_def example_handle_def example_world_no_qemu_def
      example_world_def)


subsection \<open>Launch\<close>

text \<open>The code from \<open>cleanup0\<close> and from \<open>cleanup1\<close> on, by the calls it makes.\<close>

lemma emit_simps [simp]:
  "emit e w = w\<lparr>events := events w @ [e]\<rparr>"
  by (simp add: emit_def)

lemma cleanup0_eq:
  "cleanup0 g w =
    (- 1, g\<lparr>sock := (if 0 \<le> sock g then - 1 else sock g), state := CONFIG\<rparr>,
     w\<lparr>events := events w @ (if 0 \<le> sock g then [Ev_close (sock g)] else [])\<rparr>)"
  by (simp add: cleanup0_def)

lemma cleanup1_pipes_eq:
  "cleanup1_pipes pipes w = w\<lparr>events := events w @ cleanup1_pipe_calls pipes\<rparr>"
  by (induction pipes w rule: cleanup1_pipes.induct) (simp_all add: Let_def)

lemma cleanup1_eq:
  "cleanup1 g w pipes =
    (- 1,
     g\<lparr>fd0 := - 1, fd1 := - 1, app_pid := 0, app_recoverypid := 0, launch_t := (0, 0),
       sock := (if 0 \<le> sock g then - 1 else sock g), state := CONFIG\<rparr>,
     w\<lparr>events := events w @ cleanup1_calls g pipes\<rparr>)"
  by (simp add: cleanup1_def cleanup1_calls_def cleanup0_eq cleanup1_pipes_eq Let_def)



lemma cleanup1_calls_cong:
  "app_pid g1 = app_pid g \<Longrightarrow> app_recoverypid g1 = app_recoverypid g \<Longrightarrow>
   fd0 g1 = fd0 g \<Longrightarrow> fd1 g1 = fd1 g \<Longrightarrow> direct g1 = direct g \<Longrightarrow>
   sock g1 = sock g \<Longrightarrow> cleanup1_calls g1 pipes = cleanup1_calls g pipes"
  by (simp add: cleanup1_calls_def)

lemma cleanup1_calls_no_fork:
  "Ev_fork_qemu p \<notin> set (cleanup1_calls g pipes)"
  "Ev_socket \<notin> set (cleanup1_calls g pipes)"
  by (induction pipes rule: cleanup1_pipe_calls.induct; simp add: cleanup1_calls_def)+

text \<open>The answers of the world stay as they are when events are added.\<close>

lemma answers_emit [simp]:
  "answers (w\<lparr>events := es\<rparr>) = answers w"
  "answers (w\<lparr>n_accepts := n\<rparr>) = answers w"
  "answers (w\<lparr>n_runs := n\<rparr>) = answers w"
  by (simp_all add: answers_def)





lemma cleanup1_calls_state [simp]:
  "cleanup1_calls (g\<lparr>state := st\<rparr>) pipes = cleanup1_calls g pipes"
  by (rule cleanup1_calls_cong) simp_all


lemma new_events_update [simp]:
  "new_events w (w\<lparr>events := events w @ evs\<rparr>) = evs"
  by (simp add: new_events_def)












lemma qemu_supports_none_total:
  "\<exists>y. qemu_supports g w None = Some y"
  by (simp add: qemu_supports_def split: prod.split)


text \<open>Runs of the example handle.\<close>


lemma test_qemu_example:
  "test_qemu example_handle (example_world\<lparr>recv_r := r, sys_bind := b, events := es\<rparr>) =
    (0, example_handle\<lparr>app_qemu_help := Some ''-machine -global -nodefaults'',
          app_qemu_version := Some [], app_qemu_devices := Some []\<rparr>,
     example_world\<lparr>recv_r := r, sys_bind := b,
       events := es @ [Ev_cmd_run [''/usr/bin/qemu-kvm'', ''-nographic'', ''-help'']],
       n_runs := 1\<rparr>)"
  by (simp add: test_qemu_def example_world_def example_handle_def Let_def
      parse_qemu_version_def)


lemma check_peer_euid_example: "check_peer_euid example_view = Inr 1000"
  by (simp add: check_peer_euid_def example_defs)

lemma accept_loop_example:
  assumes "accepts w = (\<lambda>n. \<lparr>accepted = Some 8, peer_view_of = example_view\<rparr>)"
    and "geteuid w = 1000"
  shows "accept_loop w =
    Some (Some 8, w\<lparr>n_accepts := Suc (n_accepts w), events := events w @ [Ev_accept]\<rparr>)"
  by (subst accept_loop.simps) (simp add: assms fd_result_def check_peer_euid_example)









subsection \<open>Shutdown\<close>

lemma shutdown_appliance_handle:
  "fst (snd (shutdown_appliance g w check_for_errors)) =
    g\<lparr>app_pid := 0, app_recoverypid := 0, app_qemu_help := None,
      app_qemu_version := None, app_qemu_devices := None\<rparr>"
  by (simp add: shutdown_appliance_def Let_def case_prod_beta)

lemma shutdown_appliance_again:
  assumes "app_pid g = 0" and "app_recoverypid g = 0" and "app_qemu_help g = None"
    and "app_qemu_version g = None" and "app_qemu_devices g = None"
  shows "shutdown_appliance g w check_for_errors = (0, g, w)"
  using assms by (cases g) (simp add: shutdown_appliance_def)

text \<open>
  C8.  After \<open>shutdown_appliance\<close> both pids are 0 and the three cached texts are
  NULL; a second call on the handle it leaves returns 0, makes no call of the system and
  leaves the handle as it is.
\<close>

theorem shutdown_appliance_idempotent:
  "(case shutdown_appliance g w check_for_errors of
      (ret, g1, w1) \<Rightarrow>
        app_pid g1 = 0 \<and> app_recoverypid g1 = 0 \<and> app_qemu_help g1 = None \<and>
        app_qemu_version g1 = None \<and> app_qemu_devices g1 = None \<and>
        shutdown_appliance g1 w2 check_again = (0, g1, w2))"
proof -
  obtain ret g1 w1 where run: "shutdown_appliance g w check_for_errors = (ret, g1, w1)"
    by (cases "shutdown_appliance g w check_for_errors") blast
  with shutdown_appliance_handle [of g w check_for_errors]
  have g1: "g1 = g\<lparr>app_pid := 0, app_recoverypid := 0, app_qemu_help := None,
      app_qemu_version := None, app_qemu_devices := None\<rparr>"
    by simp
  then have "app_pid g1 = 0" "app_recoverypid g1 = 0" "app_qemu_help g1 = None"
    "app_qemu_version g1 = None" "app_qemu_devices g1 = None"
    by simp_all
  with shutdown_appliance_again [of g1 w2 check_again] show ?thesis
    unfolding run by simp
qed

theorem shutdown_appliance_idempotent_witness:
  "shutdown_appliance
     (example_handle\<lparr>app_pid := 1001, app_recoverypid := 1002,
        app_qemu_help := Some ''-machine''\<rparr>)
     example_world 1 =
     (0, example_handle,
      example_world\<lparr>events :=
        [Ev_kill 1001 15, Ev_kill 1002 9, Ev_waitpid 1001, Ev_waitpid 1002]\<rparr>) \<and>
   shutdown_appliance example_handle
     (example_world\<lparr>events :=
        [Ev_kill 1001 15, Ev_kill 1002 9, Ev_waitpid 1001, Ev_waitpid 1002]\<rparr>) 1 =
     (0, example_handle,
      example_world\<lparr>events :=
        [Ev_kill 1001 15, Ev_kill 1002 9, Ev_waitpid 1001, Ev_waitpid 1002]\<rparr>)"
proof -
  have run: "shutdown_appliance
     (example_handle\<lparr>app_pid := 1001, app_recoverypid := 1002,
        app_qemu_help := Some ''-machine''\<rparr>)
     example_world 1 =
     (0, example_handle,
      example_world\<lparr>events :=
        [Ev_kill 1001 15, Ev_kill 1002 9, Ev_waitpid 1001, Ev_waitpid 1002]\<rparr>)"
    by (simp add: shutdown_appliance_def Let_def SIGTERM_def example_handle_def
        example_world_def)
  from shutdown_appliance_idempotent
    [where g = "example_handle\<lparr>app_pid := 1001, app_recoverypid := 1002,
        app_qemu_help := Some ''-machine''\<rparr>" and w = example_world
      and check_for_errors = 1 and check_again = 1
      and ?w2.0 = "example_world\<lparr>events :=
        [Ev_kill 1001 15, Ev_kill 1002 9, Ev_waitpid 1001, Ev_waitpid 1002]\<rparr>"]
  show ?thesis
    unfolding run by simp
qed


subsection \<open>The probe of qemu never finds virtio-scsi\<close>

text \<open>
  The calls keep this of a handle: \<open>g->app.virtio_scsi\<close> is not 1, and the cached
  device list is NULL or the empty string.
\<close>

lemma strstr_empty: "name \<noteq> [] \<Longrightarrow> \<not> strstr [] name"
  by simp

lemma test_qemu_keeps:
  assumes "test_qemu g w = (t, g', w')"
  shows "app_virtio_scsi g' = app_virtio_scsi g \<and>
    (app_qemu_devices g' = None \<or> app_qemu_devices g' = Some [])"
  using test_qemu_cases [OF assms] test_qemu_frame(1) [OF assms] by auto

lemma qemu_supports_keeps:
  assumes "qemu_supports g w option = Some (r, g', w')"
    and "app_virtio_scsi g \<noteq> 1"
    and "app_qemu_devices g = None \<or> app_qemu_devices g = Some []"
  shows "app_virtio_scsi g' \<noteq> 1 \<and>
    (app_qemu_devices g' = None \<or> app_qemu_devices g' = Some [])"
proof (cases "app_qemu_help g = None")
  case True
  obtain t g2 w2 where t: "test_qemu g w = (t, g2, w2)"
    by (cases "test_qemu g w") blast
  with assms(1) True have "g' = g2"
    by (auto simp: qemu_supports_def split: if_splits option.splits)
  with test_qemu_keeps [OF t] assms(2) show ?thesis
    by simp
next
  case False
  with assms(1) have "g' = g"
    by (auto simp: qemu_supports_def split: if_splits option.splits)
  with assms show ?thesis
    by simp
qed

lemma qemu_supports_device_keeps:
  assumes "app_virtio_scsi g \<noteq> 1"
    and "app_qemu_devices g = None \<or> app_qemu_devices g = Some []"
    and "device_name \<noteq> []"
  shows "\<exists>r g' w'. qemu_supports_device g w device_name = Some (r, g', w') \<and>
    (r = - 1 \<or> r = 0) \<and> app_virtio_scsi g' = app_virtio_scsi g \<and>
    (app_qemu_devices g' = None \<or> app_qemu_devices g' = Some [])"
proof (cases "app_qemu_devices g")
  case None
  obtain t g2 w2 where t: "test_qemu g w = (t, g2, w2)"
    by (cases "test_qemu g w") blast
  from qemu_supports_device_uncached [OF None t, of device_name] test_qemu_keeps [OF t]
    assms(3)
  show ?thesis
    by (auto simp: bool_int_def)
next
  case (Some d)
  with assms(2) have "d = []"
    by simp
  with Some assms(3) show ?thesis
    by (simp add: qemu_supports_device_cached bool_int_def)
qed

lemma qemu_supports_virtio_scsi_keeps:
  assumes vs: "app_virtio_scsi g \<noteq> 1"
    and dv: "app_qemu_devices g = None \<or> app_qemu_devices g = Some []"
  shows "\<exists>g' w'. qemu_supports_virtio_scsi g w = Some (0, g', w') \<and>
    app_virtio_scsi g' \<noteq> 1 \<and>
    (app_qemu_devices g' = None \<or> app_qemu_devices g' = Some [])"
proof -
  obtain t g1 w1 where
    pre: "(if app_qemu_help g = None then test_qemu g w else (0, g, w)) = (t, g1, w1)"
    by (cases "if app_qemu_help g = None then test_qemu g w else (0, g, w)") blast
  have g1: "app_virtio_scsi g1 \<noteq> 1 \<and>
      (app_qemu_devices g1 = None \<or> app_qemu_devices g1 = Some [])"
  proof (cases "app_qemu_help g = None")
    case True
    with pre have "test_qemu g w = (t, g1, w1)"
      by simp
    from test_qemu_keeps [OF this] vs show ?thesis
      by simp
  next
    case False
    with pre vs dv show ?thesis
      by simp
  qed
  show ?thesis
  proof (cases "t = - 1")
    case True
    with pre g1 show ?thesis
      by (simp add: qemu_supports_virtio_scsi_def)
  next
    case run: False
    show ?thesis
    proof (cases "app_virtio_scsi g1 = 0")
      case False
      with pre g1 run show ?thesis
        by (simp add: qemu_supports_virtio_scsi_def bool_int_def)
    next
      case undecided: True
      show ?thesis
      proof (cases "old_or_broken_virtio_scsi g1")
        case True
        with pre g1 run undecided show ?thesis
          by (simp add: qemu_supports_virtio_scsi_def bool_int_def)
      next
        case False
        from g1 have "\<exists>r g' w'.
            qemu_supports_device g1 w1 ''virtio-scsi-pci'' = Some (r, g', w') \<and>
            (r = - 1 \<or> r = 0) \<and> app_virtio_scsi g' = app_virtio_scsi g1 \<and>
            (app_qemu_devices g' = None \<or> app_qemu_devices g' = Some [])"
          by (intro qemu_supports_device_keeps) simp_all
        then obtain r g2 w2 where
          q: "qemu_supports_device g1 w1 ''virtio-scsi-pci'' = Some (r, g2, w2)"
          and r: "r = - 1 \<or> r = 0"
          and d2: "app_qemu_devices g2 = None \<or> app_qemu_devices g2 = Some []"
          by blast
        from r have "qemu_supports_virtio_scsi g w =
            Some (0, g2\<lparr>app_virtio_scsi := (if r = 0 then 2 else 3)\<rparr>, w2)"
          using pre run undecided False q
          by (auto simp: qemu_supports_virtio_scsi_def bool_int_def)
        with d2 show ?thesis
          by simp
      qed
    qed
  qed
qed

text \<open>The launch writes the cached texts through \<open>qemu_supports\<close> alone.\<close>

lemma cleanup0_keeps:
  "cleanup0 g w = (ret, g', w') \<Longrightarrow>
   app_virtio_scsi g' = app_virtio_scsi g \<and> app_qemu_devices g' = app_qemu_devices g"
  by (auto simp: cleanup0_eq)

lemma cleanup1_keeps:
  "cleanup1 g w pipes = (ret, g', w') \<Longrightarrow>
   app_virtio_scsi g' = app_virtio_scsi g \<and> app_qemu_devices g' = app_qemu_devices g"
  by (auto simp: cleanup1_eq)

lemma launch_handshake_keeps:
  assumes "launch_handshake g w pipes r had = (ret, g', w')"
  shows "app_virtio_scsi g' = app_virtio_scsi g \<and>
    app_qemu_devices g' = app_qemu_devices g"
  using assms
  by (auto simp: launch_handshake_def Let_def dest!: cleanup1_keeps split: if_splits)

lemma launch_accept_keeps:
  assumes "launch_accept g w pipes had = Some (ret, g', w')"
  shows "app_virtio_scsi g' = app_virtio_scsi g \<and>
    app_qemu_devices g' = app_qemu_devices g"
  using assms
  by (auto simp: launch_accept_def dest!: cleanup1_keeps launch_handshake_keeps
      split: option.splits)

lemma launch_pipes_keeps:
  assumes "launch_pipes pipes g w had = Some (ret, g', w')"
  shows "app_virtio_scsi g' = app_virtio_scsi g \<and>
    app_qemu_devices g' = app_qemu_devices g"
  using assms
  by (cases pipes)
    (auto simp: Let_def dest!: cleanup1_keeps launch_accept_keeps split: if_splits)

lemma launch_parent_keeps:
  assumes "launch_parent g w pipes had = Some (ret, g', w')"
  shows "app_virtio_scsi g' = app_virtio_scsi g \<and>
    app_qemu_devices g' = app_qemu_devices g"
  using assms
  by (auto simp: launch_parent_def dest!: launch_pipes_keeps launch_accept_keeps
      split: if_splits)

lemma launch_fork_keeps:
  assumes "launch_fork g w had = Some (ret, g', w')"
  shows "app_virtio_scsi g' = app_virtio_scsi g \<and>
    app_qemu_devices g' = app_qemu_devices g"
  using assms
  by (auto simp: launch_fork_def dest!: cleanup0_keeps launch_parent_keeps
      split: if_splits sum.splits)

lemma launch_listen_keeps:
  assumes "launch_listen g w had = Some (ret, g', w')"
  shows "app_virtio_scsi g' = app_virtio_scsi g \<and>
    app_qemu_devices g' = app_qemu_devices g"
  using assms
  by (auto simp: launch_listen_def Let_def dest!: cleanup0_keeps launch_fork_keeps
      split: if_splits)

lemma launch_appliance_keeps:
  assumes run: "launch_appliance g w = Some (ret, g', w')"
    and vs: "app_virtio_scsi g \<noteq> 1"
    and dv: "app_qemu_devices g = None \<or> app_qemu_devices g = Some []"
  shows "app_virtio_scsi g' \<noteq> 1 \<and>
    (app_qemu_devices g' = None \<or> app_qemu_devices g' = Some [])"
proof (cases "drives g = [] \<or> build_appliance w = None")
  case True
  with run have "g' = g"
    by (auto simp: launch_appliance_def split: if_splits)
  with vs dv show ?thesis
    by simp
next
  case False
  then obtain built where built: "build_appliance w = Some built" and drv: "drives g \<noteq> []"
    by auto
  obtain kernel_file initrd_file appliance where
    b: "built = (kernel_file, initrd_file, appliance)"
    by (cases built) blast
  let ?w0 = "w\<lparr>events := events w @ [Ev_progress 0, Ev_build_appliance, Ev_progress 3]\<rparr>"
  obtain r g1 w1 where q: "qemu_supports g ?w0 None = Some (r, g1, w1)"
    using qemu_supports_none_total [of g ?w0] by (metis prod_cases3)
  note g1 = qemu_supports_keeps [OF q vs dv]
  show ?thesis
  proof (cases "r = - 1")
    case True
    with run drv built b q have "cleanup0 g1 w1 = (ret, g', w')"
      by (simp add: launch_appliance_def)
    from cleanup0_keeps [OF this] g1 show ?thesis
      by simp
  next
    case False
    with run drv built b q have "launch_listen g1 w1 (appliance \<noteq> None) = Some (ret, g', w')"
      by (simp add: launch_appliance_def)
    from launch_listen_keeps [OF this] g1 show ?thesis
      by simp
  qed
qed

text \<open>So does every call, and every sequence of calls.\<close>

lemma shutdown_appliance_keeps:
  "app_virtio_scsi (fst (snd (shutdown_appliance g w c))) = app_virtio_scsi g \<and>
   app_qemu_devices (fst (snd (shutdown_appliance g w c))) = None"
  by (simp add: shutdown_appliance_handle)

lemma handle_after_keeps:
  assumes run: "handle_after c g w = Some g'"
    and vs: "app_virtio_scsi g \<noteq> 1"
    and dv: "app_qemu_devices g = None \<or> app_qemu_devices g = Some []"
  shows "app_virtio_scsi g' \<noteq> 1 \<and>
    (app_qemu_devices g' = None \<or> app_qemu_devices g' = Some [])"
proof (cases c)
  case Call_test_qemu
  with run have "test_qemu g w = (fst (test_qemu g w), g', snd (snd (test_qemu g w)))"
    by auto
  from test_qemu_keeps [OF this] vs show ?thesis
    by simp
next
  case (Call_qemu_supports option)
  with run obtain r w' where "qemu_supports g w option = Some (r, g', w')"
    by auto
  from qemu_supports_keeps [OF this vs dv] show ?thesis .
next
  case (Call_qemu_supports_device device_name)
  show ?thesis
  proof (cases "device_name = []")
    case False
    from qemu_supports_device_keeps [OF vs dv False, of w] run Call_qemu_supports_device vs
    show ?thesis
      by auto
  next
    case True
    obtain t g2 w2 where
      pre: "(if app_qemu_devices g = None then test_qemu g w else (0, g, w)) = (t, g2, w2)"
      by (cases "if app_qemu_devices g = None then test_qemu g w else (0, g, w)") blast
    with run Call_qemu_supports_device have "g' = g2"
      by (auto simp: qemu_supports_device_def split: if_splits option.splits)
    moreover have "app_virtio_scsi g2 \<noteq> 1 \<and>
        (app_qemu_devices g2 = None \<or> app_qemu_devices g2 = Some [])"
    proof (cases "app_qemu_devices g = None")
      case True
      with pre have "test_qemu g w = (t, g2, w2)"
        by simp
      from test_qemu_keeps [OF this] vs show ?thesis
        by simp
    next
      case False
      with pre vs dv show ?thesis
        by simp
    qed
    ultimately show ?thesis
      by simp
  qed
next
  case Call_qemu_supports_virtio_scsi
  with run qemu_supports_virtio_scsi_keeps [OF vs dv, of w] show ?thesis
    by auto
next
  case (Call_qemu_drive_param drv index)
  show ?thesis
  proof (cases "iface drv")
    case None
    with run Call_qemu_drive_param qemu_supports_virtio_scsi_keeps [OF vs dv, of w]
    show ?thesis
      by (auto simp: qemu_drive_param_def)
  next
    case (Some s)
    with run Call_qemu_drive_param have "g' = g"
      by (auto simp: qemu_drive_param_def)
    with vs dv show ?thesis
      by simp
  qed
next
  case Call_max_disks
  with run qemu_supports_virtio_scsi_keeps [OF vs dv, of w] show ?thesis
    by (auto simp: max_disks_appliance_def)
next
  case (Call_shutdown check_for_errors)
  with run shutdown_appliance_keeps [of g w check_for_errors] vs show ?thesis
    by auto
next
  case Call_launch
  with run obtain r w' where "launch_appliance g w = Some (r, g', w')"
    by auto
  from launch_appliance_keeps [OF this vs dv] show ?thesis .
qed

lemma handle_after_calls_keeps:
  assumes "handle_after_calls calls g = Some g'"
    and "app_virtio_scsi g \<noteq> 1"
    and "app_qemu_devices g = None \<or> app_qemu_devices g = Some []"
  shows "app_virtio_scsi g' \<noteq> 1 \<and>
    (app_qemu_devices g' = None \<or> app_qemu_devices g' = Some [])"
  using assms
proof (induction calls g rule: handle_after_calls.induct)
  case (1 g)
  then show ?case
    by simp
next
  case (2 c w calls g)
  from "2.prems"(1) obtain g1 where
    step: "handle_after c g w = Some g1" and rest: "handle_after_calls calls g1 = Some g'"
    by (auto split: option.splits)
  from handle_after_keeps [OF step "2.prems"(2,3)] "2.IH" [OF step rest] show ?case
    by simp
qed

lemma example_run_succeeds:
  "launch_appliance example_handle example_world =
    Some (0,
      example_handle\<lparr>state := READY, sock := 8, fd0 := 5, fd1 := 6, app_pid := 1001,
        app_recoverypid := 1002,
        app_qemu_help := Some ''-machine -global -nodefaults'',
        app_qemu_version := Some [], app_qemu_devices := Some []\<rparr>,
      example_world\<lparr>events :=
          [Ev_progress 0, Ev_build_appliance, Ev_progress 3,
           Ev_cmd_run [''/usr/bin/qemu-kvm'', ''-nographic'', ''-help''],
           Ev_socket, Ev_bind 3, Ev_listen 3, Ev_getsockname 3,
           Ev_fcntl_nonblock 3, Ev_pipe, Ev_pipe, Ev_fork_qemu 1001,
           Ev_fork_recovery 1002, Ev_close 4, Ev_close 7, Ev_fcntl_nonblock 5,
           Ev_fcntl_nonblock 6, Ev_accept, Ev_close 3, Ev_fcntl_nonblock 8,
           Ev_recv, Ev_progress 12, Ev_add_dummy_appliance_drive],
        n_runs := 1, n_accepts := 1\<rparr>)"
  by (simp add: launch_appliance_def qemu_supports_def test_qemu_def Let_def
      parse_qemu_version_def launch_listen_def launch_fork_def make_pipes_def
      launch_parent_def launch_accept_def accept_loop_example launch_handshake_def
      fd_result_def GUESTFS_LAUNCH_FLAG_def example_world_def example_handle_def)

text \<open>
  C9.  When \<open>test_qemu\<close> succeeds, the cached version and the cached device list are
  the empty string and the version is 0.0, and on the handle it leaves
  \<open>qemu_supports_device\<close> returns 0 for every device name but the empty one.  On a
  handle that any sequence of calls of this file has made of a handle not yet probed,
  \<open>qemu_supports_virtio_scsi\<close> returns 0, which is virtio-blk.
\<close>

theorem virtio_scsi_never_selected:
  "(\<forall>g1 w1. test_qemu g w = (0, g1, w1) \<longrightarrow>
      app_qemu_version g1 = Some [] \<and> app_qemu_devices g1 = Some [] \<and>
      app_qemu_version_major g1 = 0 \<and> app_qemu_version_minor g1 = 0 \<and>
      (\<forall>device_name w2. device_name \<noteq> [] \<longrightarrow>
         qemu_supports_device g1 w2 device_name = Some (0, g1, w2))) \<and>
   (unprobed g0 \<and> handle_after_calls calls g0 = Some g \<longrightarrow>
      (\<exists>g2 w2. qemu_supports_virtio_scsi g w = Some (0, g2, w2)))"
proof (rule conjI; (intro allI)?; rule impI)
  fix g1 w1
  assume t: "test_qemu g w = (0, g1, w1)"
  from test_qemu_cases [OF t]
  show "app_qemu_version g1 = Some [] \<and> app_qemu_devices g1 = Some [] \<and>
      app_qemu_version_major g1 = 0 \<and> app_qemu_version_minor g1 = 0 \<and>
      (\<forall>device_name w2. device_name \<noteq> [] \<longrightarrow>
         qemu_supports_device g1 w2 device_name = Some (0, g1, w2))"
    by (simp add: qemu_supports_device_cached bool_int_def)
next
  assume "unprobed g0 \<and> handle_after_calls calls g0 = Some g"
  then have run: "handle_after_calls calls g0 = Some g"
    and "app_virtio_scsi g0 \<noteq> 1"
    and "app_qemu_devices g0 = None \<or> app_qemu_devices g0 = Some []"
    by (simp_all add: unprobed_def)
  from handle_after_calls_keeps [OF this]
  have "app_virtio_scsi g \<noteq> 1"
    and "app_qemu_devices g = None \<or> app_qemu_devices g = Some []"
    by simp_all
  from qemu_supports_virtio_scsi_keeps [OF this, of w]
  show "\<exists>g2 w2. qemu_supports_virtio_scsi g w = Some (0, g2, w2)"
    by blast
qed

theorem virtio_scsi_never_selected_witness:
  "test_qemu example_handle example_world =
     (0,
      example_handle\<lparr>app_qemu_help := Some ''-machine -global -nodefaults'',
        app_qemu_version := Some [], app_qemu_devices := Some []\<rparr>,
      example_world\<lparr>events :=
        [Ev_cmd_run [''/usr/bin/qemu-kvm'', ''-nographic'', ''-help'']], n_runs := 1\<rparr>) \<and>
   qemu_supports_device
     (example_handle\<lparr>app_qemu_help := Some ''-machine -global -nodefaults'',
        app_qemu_version := Some [], app_qemu_devices := Some []\<rparr>)
     example_world ''virtio-scsi-pci'' =
     Some (0,
       example_handle\<lparr>app_qemu_help := Some ''-machine -global -nodefaults'',
         app_qemu_version := Some [], app_qemu_devices := Some []\<rparr>,
       example_world) \<and>
   unprobed example_handle \<and>
   handle_after_calls [(Call_launch, example_world)] example_handle =
     Some (example_handle\<lparr>state := READY, sock := 8, fd0 := 5, fd1 := 6, app_pid := 1001,
        app_recoverypid := 1002,
        app_qemu_help := Some ''-machine -global -nodefaults'',
        app_qemu_version := Some [], app_qemu_devices := Some []\<rparr>) \<and>
   (\<exists>g2 w2. qemu_supports_virtio_scsi
      (example_handle\<lparr>state := READY, sock := 8, fd0 := 5, fd1 := 6, app_pid := 1001,
        app_recoverypid := 1002,
        app_qemu_help := Some ''-machine -global -nodefaults'',
        app_qemu_version := Some [], app_qemu_devices := Some []\<rparr>)
      example_world = Some (0, g2, w2))"
proof -
  have t: "test_qemu example_handle example_world =
     (0,
      example_handle\<lparr>app_qemu_help := Some ''-machine -global -nodefaults'',
        app_qemu_version := Some [], app_qemu_devices := Some []\<rparr>,
      example_world\<lparr>events :=
        [Ev_cmd_run [''/usr/bin/qemu-kvm'', ''-nographic'', ''-help'']], n_runs := 1\<rparr>)"
    by (simp add: test_qemu_def Let_def parse_qemu_version_def example_world_def
        example_handle_def)
  have u: "unprobed example_handle"
    by (simp add: unprobed_def example_handle_def)
  have c: "handle_after_calls [(Call_launch, example_world)] example_handle =
     Some (example_handle\<lparr>state := READY, sock := 8, fd0 := 5, fd1 := 6, app_pid := 1001,
        app_recoverypid := 1002,
        app_qemu_help := Some ''-machine -global -nodefaults'',
        app_qemu_version := Some [], app_qemu_devices := Some []\<rparr>)"
    by (simp add: example_run_succeeds)
  note first = virtio_scsi_never_selected [THEN conjunct1, THEN spec, THEN spec, THEN mp,
      OF t]
  note second = virtio_scsi_never_selected [THEN conjunct2, THEN mp, OF conjI, OF u c]
  from first have "qemu_supports_device
     (example_handle\<lparr>app_qemu_help := Some ''-machine -global -nodefaults'',
        app_qemu_version := Some [], app_qemu_devices := Some []\<rparr>)
     example_world ''virtio-scsi-pci'' =
     Some (0,
       example_handle\<lparr>app_qemu_help := Some ''-machine -global -nodefaults'',
         app_qemu_version := Some [], app_qemu_devices := Some []\<rparr>,
       example_world)"
    by simp
  with t u c second [of example_world] show ?thesis
    by (simp only: simp_thms)
qed


subsection \<open>The maximum number of disks\<close>

text \<open>
  C10.  \<open>max_disks_appliance\<close> always returns: \<open>qemu_supports_virtio_scsi\<close> returns 0
  or 1, and the maximum is 255 when it returns 1 (virtio-scsi) and 27 when it returns 0,
  on the handle and in the world that it leaves.
\<close>

theorem max_disks_appliance_bus:
  "\<exists>r g1 w1. qemu_supports_virtio_scsi g w = Some (r, g1, w1) \<and> (r = 0 \<or> r = 1) \<and>
     max_disks_appliance g w = Some (if r = 1 then 255 else 27, g1, w1)"
proof -
  from qsvs_total [of g w] obtain r g1 w1 where
    "qemu_supports_virtio_scsi g w = Some (r, g1, w1)" and "r = 0 \<or> r = 1"
    by blast
  then show ?thesis
    by (auto simp: max_disks_appliance_def)
qed

theorem max_disks_appliance_bus_witness:
  "max_disks_appliance (example_probed 2 1 (Some example_devices)) example_world =
     Some (255, (example_probed 2 1 (Some example_devices))\<lparr>app_virtio_scsi := 1\<rparr>,
           example_world) \<and>
   max_disks_appliance (example_probed 2 1 (Some '''')) example_world =
     Some (27, (example_probed 2 1 (Some ''''))\<lparr>app_virtio_scsi := 2\<rparr>, example_world)"
proof -
  have "qemu_supports_virtio_scsi (example_probed 2 1 (Some example_devices)) example_world =
     Some (1, (example_probed 2 1 (Some example_devices))\<lparr>app_virtio_scsi := 1\<rparr>,
           example_world)"
    using qsvs_query_cached
      [of "example_probed 2 1 (Some example_devices)" _ example_devices example_world]
      strstr_example_devices
    by (simp add: example_probed_fields old_or_broken_virtio_scsi_def)
  moreover have "qemu_supports_virtio_scsi (example_probed 2 1 (Some '''')) example_world =
     Some (0, (example_probed 2 1 (Some ''''))\<lparr>app_virtio_scsi := 2\<rparr>, example_world)"
    using qsvs_query_cached [of "example_probed 2 1 (Some '''')" _ "''''" example_world]
    by (simp add: example_probed_fields old_or_broken_virtio_scsi_def)
  ultimately show ?thesis
    using max_disks_appliance_bus [of "example_probed 2 1 (Some example_devices)" example_world]
      max_disks_appliance_bus [of "example_probed 2 1 (Some '''')" example_world]
    by auto
qed

end
